theory Spec2Isabelle
  imports Complex_Main "HOL-Library.AList" "HOL-Library.Monad_Syntax"
begin

section \<open>Data model of the consistency checker (check_navlink_crcs.py)\<close>

text \<open>
  A message descriptor is the dict \<^verbatim>\<open>{'name': .., 'crc': .., 'len': ..}\<close> that both
  extractors build. A source table is a Python dict from message id to descriptor; it is
  an association list in insertion order, read with \<open>map_of\<close> and written with
  \<open>AList.update\<close> (an assignment to an existing key replaces the value in place).
  An unavailable source is \<open>None\<close>.
\<close>

datatype py_error = KeyError | IndexError | ValueError

record descriptor =
  name :: string
  crc :: int
  len :: int

type_synonym table = "(int \<times> descriptor) list"

text \<open>An entry of the \<^verbatim>\<open>errors\<close> list: \<^verbatim>\<open>{'msg_id': .., 'name': .., 'issue': ..}\<close>.\<close>

record discrepancy =
  msg_id :: int
  msg_name :: string
  issue :: string

subsection \<open>Decimal text of an integer, as an f-string prints it\<close>

definition digit_char :: "nat \<Rightarrow> char" where
  "digit_char d = ''0123456789'' ! d"

fun str_nat :: "nat \<Rightarrow> string" where
  "str_nat n = (if n < 10 then [digit_char n] else str_nat (n div 10) @ [digit_char (n mod 10)])"

declare str_nat.simps [simp del]

definition str_int :: "int \<Rightarrow> string" where
  "str_int i = (if i < 0 then CHR ''-'' # str_nat (nat (- i)) else str_nat (nat i))"

text \<open>The two f-strings of \<^verbatim>\<open>compare_crcs\<close>.\<close>

definition missing_in :: "string \<Rightarrow> string" where
  "missing_in source_name = ''Missing in '' @ source_name"

definition crc_mismatch :: "string \<Rightarrow> int \<Rightarrow> string \<Rightarrow> int \<Rightarrow> string" where
  "crc_mismatch source1_name c1 source2_name c2 =
     ''CRC mismatch: '' @ source1_name @ ''='' @ str_int c1 @ '' vs '' @ source2_name @ ''='' @ str_int c2"

subsection \<open>compare_crcs\<close>

text \<open>\<^verbatim>\<open>d[k]\<close> on a dict: a missing key raises KeyError.\<close>

definition getitem :: "table \<Rightarrow> int \<Rightarrow> py_error + descriptor" where
  "getitem t k = (case map_of t k of None \<Rightarrow> Inl KeyError | Some d \<Rightarrow> Inr d)"

definition keys :: "table \<Rightarrow> int set" where
  "keys t = set (map fst t)"

text \<open>\<^verbatim>\<open>sorted(set(source1_crcs.keys()) | set(source2_crcs.keys()))\<close>\<close>

definition all_ids :: "table \<Rightarrow> table \<Rightarrow> int list" where
  "all_ids source1_crcs source2_crcs = sorted_list_of_set (keys source1_crcs \<union> keys source2_crcs)"

text \<open>
  The body of the \<^verbatim>\<open>for msg_id in sorted(all_ids)\<close> loop: it returns the
  \<^verbatim>\<open>errors\<close> list after the iteration, or the exception a subscript raises.
\<close>

definition compare_step ::
  "string \<Rightarrow> table \<Rightarrow> string \<Rightarrow> table \<Rightarrow> discrepancy list \<Rightarrow> int \<Rightarrow> py_error + discrepancy list" where
  "compare_step source1_name source1_crcs source2_name source2_crcs errors i =
     (if i \<notin> keys source1_crcs then
        (case getitem source2_crcs i of
           Inl e \<Rightarrow> Inl e
         | Inr d2 \<Rightarrow> Inr (errors @ [\<lparr>msg_id = i, msg_name = name d2, issue = missing_in source1_name\<rparr>]))
      else if i \<notin> keys source2_crcs then
        (case getitem source1_crcs i of
           Inl e \<Rightarrow> Inl e
         | Inr d1 \<Rightarrow> Inr (errors @ [\<lparr>msg_id = i, msg_name = name d1, issue = missing_in source2_name\<rparr>]))
      else
        (case getitem source1_crcs i of
           Inl e \<Rightarrow> Inl e
         | Inr s1 \<Rightarrow>
            (case getitem source2_crcs i of
               Inl e \<Rightarrow> Inl e
             | Inr s2 \<Rightarrow>
                 if crc s1 \<noteq> crc s2 then
                   Inr (errors @ [\<lparr>msg_id = i, msg_name = name s1,
                          issue = crc_mismatch source1_name (crc s1) source2_name (crc s2)\<rparr>])
                 else Inr errors)))"

fun compare_loop ::
  "string \<Rightarrow> table \<Rightarrow> string \<Rightarrow> table \<Rightarrow> int list \<Rightarrow> discrepancy list \<Rightarrow> py_error + discrepancy list" where
  "compare_loop n1 t1 n2 t2 [] errors = Inr errors"
| "compare_loop n1 t1 n2 t2 (i # ids) errors =
     (case compare_step n1 t1 n2 t2 errors i of
        Inl e \<Rightarrow> Inl e
      | Inr errors' \<Rightarrow> compare_loop n1 t1 n2 t2 ids errors')"

text \<open>
  \<^verbatim>\<open>compare_crcs\<close> returns the pair \<^verbatim>\<open>(errors, warnings)\<close>; nothing is ever appended
  to \<^verbatim>\<open>warnings\<close>.
\<close>

definition compare_crcs ::
  "string \<Rightarrow> table option \<Rightarrow> string \<Rightarrow> table option
     \<Rightarrow> py_error + (discrepancy list \<times> discrepancy list)" where
  "compare_crcs source1_name source1_crcs source2_name source2_crcs =
     (case (source1_crcs, source2_crcs) of
        (Some t1, Some t2) \<Rightarrow>
          (case compare_loop source1_name t1 source2_name t2 (all_ids t1 t2) [] of
             Inl e \<Rightarrow> Inl e
           | Inr errors \<Rightarrow> Inr (errors, []))
      | _ \<Rightarrow> Inr ([], []))"

subsection \<open>The driver: pairwise comparison and verdict\<close>

text \<open>
  \<^verbatim>\<open>main\<close> stores the three extraction results under the keys pymavlink, ardupilot and
  router, compares the three pairs under the guard
  \<^verbatim>\<open>if sources.get(name1) and sources.get(name2)\<close> and returns 1 when \<^verbatim>\<open>all_errors\<close> is
  non-empty, 0 otherwise; \<^verbatim>\<open>sys.exit(main())\<close> makes that the exit status. The report it
  prints is left out. The guard tests truth values: \<^verbatim>\<open>None\<close> and the empty dict are both
  false.
\<close>

type_synonym sources = "(string \<times> table option) list"

definition truthy :: "table option \<Rightarrow> bool" where
  "truthy v = (case v of None \<Rightarrow> False | Some t \<Rightarrow> t \<noteq> [])"

definition sources_get :: "sources \<Rightarrow> string \<Rightarrow> table option" where
  "sources_get sources n = (case map_of sources n of None \<Rightarrow> None | Some v \<Rightarrow> v)"

definition sources_item :: "sources \<Rightarrow> string \<Rightarrow> py_error + table option" where
  "sources_item sources n = (case map_of sources n of None \<Rightarrow> Inl KeyError | Some v \<Rightarrow> Inr v)"

definition pairs :: "(string \<times> string) list" where
  "pairs = [(''pymavlink'', ''ardupilot''), (''pymavlink'', ''router''), (''ardupilot'', ''router'')]"

fun compare_pairs :: "sources \<Rightarrow> (string \<times> string) list \<Rightarrow> discrepancy list \<Rightarrow> py_error + discrepancy list" where
  "compare_pairs sources [] all_errors = Inr all_errors"
| "compare_pairs sources ((name1, name2) # ps) all_errors =
     (if truthy (sources_get sources name1) \<and> truthy (sources_get sources name2) then
        (case sources_item sources name1 of
           Inl e \<Rightarrow> Inl e
         | Inr s1 \<Rightarrow>
            (case sources_item sources name2 of
               Inl e \<Rightarrow> Inl e
             | Inr s2 \<Rightarrow>
                (case compare_crcs name1 s1 name2 s2 of
                   Inl e \<Rightarrow> Inl e
                 | Inr (errors, warnings) \<Rightarrow>
                     compare_pairs sources ps (if errors \<noteq> [] then all_errors @ errors else all_errors))))
      else compare_pairs sources ps all_errors)"

definition main_sources :: "table option \<Rightarrow> table option \<Rightarrow> table option \<Rightarrow> sources" where
  "main_sources pymavlink ardupilot router =
     [(''pymavlink'', pymavlink), (''ardupilot'', ardupilot), (''router'', router)]"

definition main :: "table option \<Rightarrow> table option \<Rightarrow> table option \<Rightarrow> py_error + int" where
  "main pymavlink ardupilot router =
     (case compare_pairs (main_sources pymavlink ardupilot router) pairs [] of
        Inl e \<Rightarrow> Inl e
      | Inr all_errors \<Rightarrow> Inr (if all_errors \<noteq> [] then 1 else 0))"

text \<open>
  The three extractions come first, pymavlink, ardupilot, router. Each returns a table or
  the absence marker, or raises; an exception is caught nowhere in \<^verbatim>\<open>main\<close>, so the first
  one ends the run. The exit status of the process is the value \<^verbatim>\<open>main\<close> returns, and 1
  when an exception ends it.
\<close>

definition run_main ::
  "py_error + table option \<Rightarrow> py_error + table option \<Rightarrow> py_error + table option \<Rightarrow> py_error + int" where
  "run_main pymavlink ardupilot router =
     (case pymavlink of
        Inl e \<Rightarrow> Inl e
      | Inr py \<Rightarrow>
         (case ardupilot of
            Inl e \<Rightarrow> Inl e
          | Inr ap \<Rightarrow>
             (case router of
                Inl e \<Rightarrow> Inl e
              | Inr rt \<Rightarrow> main py ap rt)))"

definition exit_status :: "py_error + int \<Rightarrow> int" where
  "exit_status r = (case r of Inl e \<Rightarrow> 1 | Inr code \<Rightarrow> code)"

section \<open>Strings as Python reads them\<close>

text \<open>
  Strings are ASCII here: \<^verbatim>\<open>\d\<close>, \<^verbatim>\<open>\s\<close>, \<^verbatim>\<open>str.isdigit\<close> and \<^verbatim>\<open>str.lower\<close> are modelled on
  the characters below 128. The white space of \<^verbatim>\<open>\s\<close> has the four separators 0x1C to
  0x1F, which \<^verbatim>\<open>float\<close> and \<^verbatim>\<open>int\<close> do not strip.
\<close>

definition is_digit :: "char \<Rightarrow> bool" where
  "is_digit c = (c \<in> set ''0123456789'')"

definition is_space :: "char \<Rightarrow> bool" where
  "is_space c = (c \<in> set [CHR '' '', CHR 0x09, CHR 0x0A, CHR 0x0B, CHR 0x0C, CHR 0x0D,
                            CHR 0x1C, CHR 0x1D, CHR 0x1E, CHR 0x1F])"

definition isdigit :: "string \<Rightarrow> bool" where
  "isdigit s = (s \<noteq> [] \<and> list_all is_digit s)"

definition digit_value :: "char \<Rightarrow> nat" where
  "digit_value c = (case map_of (zip ''0123456789'' [0, 1, 2, 3, 4, 5, 6, 7, 8, 9]) c of None \<Rightarrow> 0 | Some d \<Rightarrow> d)"

definition digits_value :: "string \<Rightarrow> nat" where
  "digits_value s = foldl (\<lambda>a c. 10 * a + digit_value c) 0 s"

definition lower_char :: "char \<Rightarrow> char" where
  "lower_char c = (case map_of (zip ''ABCDEFGHIJKLMNOPQRSTUVWXYZ'' ''abcdefghijklmnopqrstuvwxyz'') c of
                     None \<Rightarrow> c | Some l \<Rightarrow> l)"

definition lower :: "string \<Rightarrow> string" where
  "lower s = map lower_char s"

definition is_c_space :: "char \<Rightarrow> bool" where
  "is_c_space c = (c \<in> set [CHR '' '', CHR 0x09, CHR 0x0A, CHR 0x0B, CHR 0x0C, CHR 0x0D])"

definition strip :: "string \<Rightarrow> string" where
  "strip s = rev (dropWhile is_c_space (rev (dropWhile is_c_space s)))"

subsection \<open>The text float() accepts\<close>

text \<open>
  \<^verbatim>\<open>float(s)\<close> strips blanks and the characters 0x09 to 0x0D, takes a sign, and then either inf, infinity or nan
  in any case, or a decimal number with an optional exponent, where single underscores may
  separate digits; any other text raises ValueError (\<open>None\<close>). The binary value is not
  computed: an accepted text stands for its float.
\<close>

fun digitpart :: "string \<Rightarrow> bool" where
  "digitpart [] = False"
| "digitpart [c] = is_digit c"
| "digitpart (c # d # r) = (is_digit c \<and> (if d = CHR ''_'' then digitpart r else digitpart (d # r)))"

definition drop_sign :: "string \<Rightarrow> string" where
  "drop_sign s = (case s of c # r \<Rightarrow> if c = CHR ''+'' \<or> c = CHR ''-'' then r else s | [] \<Rightarrow> [])"

definition number :: "string \<Rightarrow> bool" where
  "number s =
     (let ip = takeWhile (\<lambda>c. c \<noteq> CHR ''.'') s; rest = dropWhile (\<lambda>c. c \<noteq> CHR ''.'') s
      in if rest = [] then digitpart ip
         else (let fp = tl rest
               in (ip = [] \<and> digitpart fp) \<or> (digitpart ip \<and> (fp = [] \<or> digitpart fp))))"

definition is_e :: "char \<Rightarrow> bool" where
  "is_e c = (c = CHR ''e'' \<or> c = CHR ''E'')"

definition floatnumber :: "string \<Rightarrow> bool" where
  "floatnumber s =
     (let mant = takeWhile (\<lambda>c. \<not> is_e c) s; rest = dropWhile (\<lambda>c. \<not> is_e c) s
      in number mant \<and> (rest = [] \<or> digitpart (drop_sign (tl rest))))"

definition py_float :: "string \<Rightarrow> string option" where
  "py_float s =
     (let u = drop_sign (strip s)
      in if lower u \<in> set [''inf'', ''infinity'', ''nan''] \<or> floatnumber u then Some s else None)"

subsection \<open>The text int() accepts\<close>

text \<open>
  \<^verbatim>\<open>int(s)\<close> strips the same white space, takes a sign and then digits, where single
  underscores may separate digits; any other text raises ValueError, and so does one with
  more digits than the limit of the interpreter, 4300 unless it is configured otherwise.
\<close>

definition int_max_str_digits :: nat where
  "int_max_str_digits = 4300"

definition py_int :: "string \<Rightarrow> py_error + int" where
  "py_int s =
     (let t = strip s; u = drop_sign t; ds = filter (\<lambda>c. c \<noteq> CHR ''_'') u
      in if \<not> digitpart u \<or> length ds > int_max_str_digits then Inl ValueError
         else if take 1 t = ''-'' then Inr (- int (digits_value ds))
         else Inr (int (digits_value ds)))"

section \<open>The text-artifact extractor (parse_c_header_crcs)\<close>

definition NAVLINK_MESSAGES :: "(string \<times> int) list" where
  "NAVLINK_MESSAGES =
     [(''CHECK_IN'', 25002), (''CHECK_OUT'', 25003), (''SWARM_HEARTBEAT'', 25004),
      (''AVAILABLE_TASK_REQUEST'', 25104), (''AVAILABLE_TASK_RESPONSE'', 25105),
      (''TASK_ASSIGN_REQUEST'', 25106), (''TASK_ASSIGN_RESPONSE'', 25107),
      (''TASK_CONFIRM_REQUEST'', 25108), (''TASK_CONFIRM_RESPONSE'', 25109),
      (''SLOT_HEARTBEAT'', 25200), (''SLOT_CLAIM'', 25201), (''VOTE_PHASE'', 25202),
      (''SEARCH_STATUS'', 25300)]"

text \<open>
  The two regular expressions are matched by hand. In both, a greedy \<^verbatim>\<open>\d+\<close> is followed
  by a character that is no digit and a greedy \<^verbatim>\<open>\s*\<close> by one that is no white space, so
  taking the longest run is the only way to match and no backtracking is lost.
\<close>

definition match_lit :: "char \<Rightarrow> string \<Rightarrow> string option" where
  "match_lit c s = (case s of x # r \<Rightarrow> if x = c then Some r else None | [] \<Rightarrow> None)"

definition match_digits :: "string \<Rightarrow> (string \<times> string) option" where
  "match_digits s =
     (if takeWhile is_digit s = [] then None
      else Some (takeWhile is_digit s, dropWhile is_digit s))"

text \<open>\<^verbatim>\<open>(\d+),\s*\<close>\<close>

definition match_field :: "string \<Rightarrow> (string \<times> string) option" where
  "match_field s =
     do { (g, r) \<leftarrow> match_digits s;
          r' \<leftarrow> match_lit CHR '','' r;
          Some (g, dropWhile is_space r') }"

text \<open>
  \<^verbatim>\<open>\{(\d+),\s*(\d+),\s*(\d+),\s*(\d+),\s*\d+,\s*\d+,\s*\d+\}\<close> at the start of the text: the
  four groups and the text after the match.
\<close>

definition match_entry :: "string \<Rightarrow> ((string \<times> string \<times> string \<times> string) \<times> string) option" where
  "match_entry s =
     do { r0 \<leftarrow> match_lit CHR ''{'' s;
          (g1, r1) \<leftarrow> match_field r0;
          (g2, r2) \<leftarrow> match_field r1;
          (g3, r3) \<leftarrow> match_field r2;
          (g4, r4) \<leftarrow> match_field r3;
          (g5, r5) \<leftarrow> match_field r4;
          (g6, r6) \<leftarrow> match_field r5;
          (g7, r7) \<leftarrow> match_digits r6;
          r8 \<leftarrow> match_lit CHR ''}'' r7;
          Some ((g1, g2, g3, g4), r8) }"

text \<open>A match consumes at least its opening brace, which is what lets the scan below end.\<close>

lemma match_lit_length: "match_lit c s = Some r \<Longrightarrow> length r < length s"
  by (auto simp: match_lit_def split: list.splits if_splits)

lemma match_digits_length: "match_digits s = Some (g, r) \<Longrightarrow> length r \<le> length s"
  by (auto simp: match_digits_def length_dropWhile_le split: if_splits)

lemma match_field_length:
  assumes "match_field s = Some (g, r)"
  shows "length r < length s"
proof -
  from assms obtain g' r1 r2 where d: "match_digits s = Some (g', r1)"
    and l: "match_lit CHR '','' r1 = Some r2" and r: "r = dropWhile is_space r2"
    by (auto simp: match_field_def split: Option.bind_splits)
  have "length r \<le> length r2" using r by (simp add: length_dropWhile_le)
  also have "\<dots> < length r1" using l by (rule match_lit_length)
  also have "\<dots> \<le> length s" using d by (rule match_digits_length)
  finally show ?thesis .
qed

lemma match_entry_length:
  assumes "match_entry s = Some (g, r)"
  shows "length r < length s"
proof -
  from assms obtain r0 g1 r1 g2 r2 g3 r3 g4 r4 g5 r5 g6 r6 g7 r7 where
    m: "match_lit CHR ''{'' s = Some r0" "match_field r0 = Some (g1, r1)"
       "match_field r1 = Some (g2, r2)" "match_field r2 = Some (g3, r3)"
       "match_field r3 = Some (g4, r4)" "match_field r4 = Some (g5, r5)"
       "match_field r5 = Some (g6, r6)" "match_digits r6 = Some (g7, r7)"
       "match_lit CHR ''}'' r7 = Some r"
    by (auto simp: match_entry_def split: Option.bind_splits)
  from m show ?thesis
    by (auto dest!: match_lit_length match_field_length match_digits_length)
qed

text \<open>\<^verbatim>\<open>re.findall\<close>: matches from left to right, the next search starting where a match ends.\<close>

function findall :: "string \<Rightarrow> (string \<times> string \<times> string \<times> string) list" where
  "findall [] = []"
| "findall (c # r) =
     (case match_entry (c # r) of
        Some (g, rest) \<Rightarrow> g # findall rest
      | None \<Rightarrow> findall r)"
  by pat_completeness auto
termination
proof (relation "measure length")
  show "wf (measure length)" by simp
next
  fix c r x2 x y
  assume "match_entry (c # r) = Some x2" and "(x, y) = x2"
  then have "length y < length (c # r)"
    using match_entry_length [of "c # r" x y] by simp
  then show "(y, c # r) \<in> measure length" by simp
next
  fix c r
  show "(r, c # r) \<in> measure length" by simp
qed

text \<open>\<^verbatim>\<open>re.search(r'#define MAVLINK_MESSAGE_CRCS\s*\{\{', content)\<close> finds a match.\<close>

definition match_define :: "string \<Rightarrow> bool" where
  "match_define s =
     (let lit = ''#define MAVLINK_MESSAGE_CRCS''
      in take (length lit) s = lit \<and> take 2 (dropWhile is_space (drop (length lit) s)) = ''{{'')"

fun search_define :: "string \<Rightarrow> bool" where
  "search_define [] = False"
| "search_define (c # r) = (match_define (c # r) \<or> search_define r)"

text \<open>
  The loop over the matches: the four groups are converted by \<^verbatim>\<open>int\<close>, whose ValueError
  nothing catches, and an id of the catalog is stored under the first catalog name that
  has it, with the second group as crc and the fourth as len.
\<close>

fun parse_entries :: "(string \<times> string \<times> string \<times> string) list \<Rightarrow> table \<Rightarrow> py_error + table" where
  "parse_entries [] crcs = Inr crcs"
| "parse_entries ((e0, e1, e2, e3) # es) crcs =
     (case py_int e0 of
        Inl e \<Rightarrow> Inl e
      | Inr msg_id' \<Rightarrow>
         (case py_int e1 of
            Inl e \<Rightarrow> Inl e
          | Inr crc' \<Rightarrow>
             (case py_int e2 of
                Inl e \<Rightarrow> Inl e
              | Inr min_len \<Rightarrow>
                 (case py_int e3 of
                    Inl e \<Rightarrow> Inl e
                  | Inr max_len \<Rightarrow>
                      if msg_id' \<in> set (map snd NAVLINK_MESSAGES) then
                        (case map fst (filter (\<lambda>(k, v). v = msg_id') NAVLINK_MESSAGES) of
                           [] \<Rightarrow> Inl IndexError
                         | nm # _ \<Rightarrow>
                             parse_entries es
                               (AList.update msg_id' \<lparr>name = nm, crc = crc', len = max_len\<rparr> crcs))
                      else parse_entries es crcs))))"

text \<open>
  The header file is \<open>None\<close> when \<^verbatim>\<open>os.path.exists\<close> is false and its text otherwise
  (a path that exists is taken to be a readable text file).
\<close>

definition parse_c_header_crcs :: "string option \<Rightarrow> py_error + table option" where
  "parse_c_header_crcs header =
     (case header of
        None \<Rightarrow> Inr None
      | Some content \<Rightarrow>
          if \<not> search_define content then Inr None
          else (case parse_entries (findall content) [] of
                  Inl e \<Rightarrow> Inl e
                | Inr crcs \<Rightarrow> Inr (Some crcs)))"

section \<open>The conformance harness (test_navlink_msg.py)\<close>

subsection \<open>parse_params\<close>

text \<open>
  A converted value is a float, an int, a bool or the string itself. \<^verbatim>\<open>float(value)\<close> and
  \<^verbatim>\<open>int(value)\<close> may raise ValueError, which the \<^verbatim>\<open>except\<close> clause turns into the string.
\<close>

datatype pyval = PyFloat string | PyInt int | PyBool bool | PyStr string

definition convert_value :: "string \<Rightarrow> pyval" where
  "convert_value v =
     (if CHR ''.'' \<in> set v then
        (case py_float v of None \<Rightarrow> PyStr v | Some f \<Rightarrow> PyFloat f)
      else if isdigit v \<or> (take 1 v = ''-'' \<and> isdigit (drop 1 v)) then
        (case py_int v of Inl e \<Rightarrow> PyStr v | Inr i \<Rightarrow> PyInt i)
      else if lower v \<in> set [''true'', ''false''] then PyBool (lower v = ''true'')
      else PyStr v)"

text \<open>\<^verbatim>\<open>key, value = param.split('=', 1)\<close>\<close>

definition split_param :: "string \<Rightarrow> string \<times> string" where
  "split_param param =
     (takeWhile (\<lambda>c. c \<noteq> CHR ''='') param, drop 1 (dropWhile (\<lambda>c. c \<noteq> CHR ''='') param))"

fun parse_loop :: "string list \<Rightarrow> (string \<times> pyval) list \<Rightarrow> (string \<times> pyval) list" where
  "parse_loop [] result = result"
| "parse_loop (param # params) result =
     (if CHR ''='' \<notin> set param then parse_loop params result
      else (case split_param param of
              (key, v) \<Rightarrow> parse_loop params (AList.update key (convert_value v) result)))"

definition parse_params :: "string list \<Rightarrow> (string \<times> pyval) list" where
  "parse_params params = parse_loop params []"

subsection \<open>SimpleVehicle: callbacks and the reader loop\<close>

text \<open>
  A received message answers \<^verbatim>\<open>get_type()\<close>, \<^verbatim>\<open>get_srcSystem()\<close> and \<^verbatim>\<open>to_dict()\<close>. A
  callback is a Python callable: it changes the world it can reach (\<open>'w\<close>) and either
  returns or raises an \<^verbatim>\<open>Exception\<close> with a message, the class both handlers of the
  reader loop name.
\<close>

record message =
  get_type :: string
  get_srcSystem :: int
  to_dict :: "(string \<times> pyval) list"

datatype cb_result = Returned | Raised string

type_synonym 'w callback = "message \<Rightarrow> 'w \<Rightarrow> cb_result \<times> 'w"

type_synonym 'w callbacks = "(string \<times> 'w callback list) list"

text \<open>\<^verbatim>\<open>self._callbacks.get(t, [])\<close>\<close>

definition callbacks_get :: "'w callbacks \<Rightarrow> string \<Rightarrow> 'w callback list" where
  "callbacks_get cbs t = (case map_of cbs t of None \<Rightarrow> [] | Some l \<Rightarrow> l)"

definition on_message :: "'w callbacks \<Rightarrow> string \<Rightarrow> 'w callback \<Rightarrow> 'w callbacks" where
  "on_message cbs msg_type callback =
     (let cbs' = (if map_of cbs msg_type = None then AList.update msg_type [] cbs else cbs)
      in AList.update msg_type (callbacks_get cbs' msg_type @ [callback]) cbs')"

text \<open>
  The inner \<^verbatim>\<open>for cb in ...\<close> loop, on the pair of the world and the lines printed so far.
\<close>

fun run_callbacks :: "'w callback list \<Rightarrow> message \<Rightarrow> 'w \<times> string list \<Rightarrow> 'w \<times> string list" where
  "run_callbacks [] msg st = st"
| "run_callbacks (cb # cbs) msg (w, out) =
     (case cb msg w of
        (Returned, w') \<Rightarrow> run_callbacks cbs msg (w', out)
      | (Raised e, w') \<Rightarrow> run_callbacks cbs msg (w', out @ [''Callback error: '' @ e]))"

text \<open>
  What one \<^verbatim>\<open>recv_match(blocking=True, timeout=0.5)\<close> of the loop gives: nothing within
  the timeout, a message, or an exception, the last with what \<^verbatim>\<open>self._stop_evt.is_set()\<close>
  answers in the handler: the line is printed only when the stop event is not set.
\<close>

datatype recv = RecvNone | RecvMsg message | RecvRaises string bool

definition reader_step :: "'w callbacks \<Rightarrow> recv \<Rightarrow> 'w \<times> string list \<Rightarrow> 'w \<times> string list" where
  "reader_step cbs r st =
     (case r of
        RecvNone \<Rightarrow> st
      | RecvMsg msg \<Rightarrow>
          run_callbacks (callbacks_get cbs (get_type msg) @ callbacks_get cbs ''*'') msg st
      | RecvRaises e stop_is_set \<Rightarrow>
          if \<not> stop_is_set then (fst st, snd st @ [''Reader error: '' @ e]) else st)"

text \<open>
  The loop runs one step for each receive it makes, that is for each turn begun before the
  stop event is set; a receive during which the event is set is the last one.
\<close>

fun reader_loop :: "'w callbacks \<Rightarrow> recv list \<Rightarrow> 'w \<times> string list \<Rightarrow> 'w \<times> string list" where
  "reader_loop cbs [] st = st"
| "reader_loop cbs (r # rs) st = reader_loop cbs rs (reader_step cbs r st)"

subsection \<open>wait_heartbeat_from\<close>

text \<open>
  Each turn of \<^verbatim>\<open>while time.time() < deadline\<close> reads the clock and, inside the deadline,
  receives once (a HEARTBEAT or nothing). A poll is that pair; the clock is a real number
  of seconds. The result is the returned bool with the lines the call printed. When the
  polls end before the loop does, nothing is known of the result (\<open>None\<close>).
\<close>

type_synonym poll = "real \<times> message option"

definition heartbeat_line :: "int \<Rightarrow> int \<Rightarrow> string" where
  "heartbeat_line source_system target_sysid =
     ''[SYS '' @ str_int source_system @ ''] Heartbeat from system '' @ str_int target_sysid"

fun wait_loop :: "int \<Rightarrow> int \<Rightarrow> real \<Rightarrow> poll list \<Rightarrow> (bool \<times> string list) option" where
  "wait_loop source_system target_sysid deadline [] = None"
| "wait_loop source_system target_sysid deadline ((now, msg) # polls) =
     (if now < deadline then
        (case msg of
           Some m \<Rightarrow> if get_srcSystem m = target_sysid
                     then Some (True, [heartbeat_line source_system target_sysid])
                     else wait_loop source_system target_sysid deadline polls
         | None \<Rightarrow> wait_loop source_system target_sysid deadline polls)
      else Some (False, []))"

definition wait_heartbeat_from ::
  "int \<Rightarrow> int \<Rightarrow> real \<Rightarrow> real \<Rightarrow> poll list \<Rightarrow> (bool \<times> string list) option" where
  "wait_heartbeat_from source_system target_sysid timeout start polls =
     wait_loop source_system target_sysid (start + timeout) polls"

subsection \<open>The harness: main after the message is built\<close>

text \<open>The handler \<^verbatim>\<open>create_handler(vehicle_id)\<close> appends to the shared \<^verbatim>\<open>received\<close> list.\<close>

record received_record =
  receiver :: int
  sender :: int
  rtype :: string
  data :: "(string \<times> pyval) list"

definition create_handler :: "string \<Rightarrow> int \<Rightarrow> received_record list callback" where
  "create_handler target_msg_type vehicle_id =
     (\<lambda>msg received.
        (Returned,
         if get_type msg = target_msg_type
         then received @ [\<lparr>receiver = vehicle_id, sender = get_srcSystem msg,
                            rtype = get_type msg, data = to_dict msg\<rparr>]
         else received))"

text \<open>
  The two sessions are \<^verbatim>\<open>SimpleVehicle(.., source_system=251)\<close> and
  \<^verbatim>\<open>SimpleVehicle(.., source_system=252)\<close>. What the outside decides is given: whether each
  connect succeeds, the clock and the polls of the two waits, and the \<^verbatim>\<open>received\<close> list
  when it is read. \<^verbatim>\<open>main\<close> then is the list of the calls it makes on the sessions, each
  with the session's \<^verbatim>\<open>source_system\<close>, and the value it returns. A wait is listed with
  its target, its timeout, the bool it returned and the lines it printed; \<^verbatim>\<open>main\<close> does not
  read the bool, and its own prints, the same on every path through the waits, are left
  out, as is an interrupt from the keyboard.
\<close>

definition vehicle1_source_system :: int where
  "vehicle1_source_system = 251"

definition vehicle2_source_system :: int where
  "vehicle2_source_system = 252"

record harness_env =
  connect1_ok :: bool
  connect2_ok :: bool
  start2 :: real
  polls2 :: "poll list"
  start1 :: real
  polls1 :: "poll list"
  received_log :: "received_record list"

datatype action =
    Connect int
  | OnMessage int string
  | WaitHeartbeatFrom int int real bool "string list"
  | SendMessage int message
  | Sleep int
  | Close int

definition harness_main :: "message \<Rightarrow> int \<Rightarrow> harness_env \<Rightarrow> (int \<times> action list) option" where
  "harness_main msg timeout env =
     (let v1 = vehicle1_source_system; v2 = vehicle2_source_system
      in if \<not> connect1_ok env then Some (1, [Connect v1, Close v1, Close v2])
         else if \<not> connect2_ok env then Some (1, [Connect v1, Connect v2, Close v1, Close v2])
         else
           (case wait_heartbeat_from v2 1 10 (start2 env) (polls2 env) of
              None \<Rightarrow> None
            | Some (r2, out2) \<Rightarrow>
               (case wait_heartbeat_from v1 2 10 (start1 env) (polls1 env) of
                  None \<Rightarrow> None
                | Some (r1, out1) \<Rightarrow>
                    Some (if received_log env \<noteq> [] then 0 else 1,
                          [Connect v1, Connect v2, OnMessage v1 ''*'', OnMessage v2 ''*'',
                           WaitHeartbeatFrom v2 1 10 r2 out2, WaitHeartbeatFrom v1 2 10 r1 out1,
                           SendMessage v2 msg, Sleep timeout, Close v1, Close v2]))))"

section \<open>Specification-side definitions and example data\<close>

text \<open>
  The comparator's rule in the words of the specification: an id present only in A is
  missing in B and named from A's entry, one present only in B is missing in A and named
  from B's entry, one present in both with different integrity codes is a mismatch that
  reports both values, and anything else is no discrepancy.
\<close>

definition discrepancy_rule :: "string \<Rightarrow> table \<Rightarrow> string \<Rightarrow> table \<Rightarrow> int \<Rightarrow> discrepancy list" where
  "discrepancy_rule nameA tableA nameB tableB i =
     (case (map_of tableA i, map_of tableB i) of
        (Some a, None) \<Rightarrow> [\<lparr>msg_id = i, msg_name = name a, issue = missing_in nameB\<rparr>]
      | (None, Some b) \<Rightarrow> [\<lparr>msg_id = i, msg_name = name b, issue = missing_in nameA\<rparr>]
      | (Some a, Some b) \<Rightarrow>
          (if crc a \<noteq> crc b
           then [\<lparr>msg_id = i, msg_name = name a, issue = crc_mismatch nameA (crc a) nameB (crc b)\<rparr>]
           else [])
      | (None, None) \<Rightarrow> [])"

text \<open>An id is discrepant when one side lacks it or the integrity codes differ.\<close>

definition discrepant :: "table \<Rightarrow> table \<Rightarrow> int \<Rightarrow> bool" where
  "discrepant tableA tableB i =
     (case (map_of tableA i, map_of tableB i) of
        (Some a, Some b) \<Rightarrow> crc a \<noteq> crc b
      | (None, None) \<Rightarrow> False
      | _ \<Rightarrow> True)"

text \<open>
  The discrepancies of a pair of sources that are both present and not empty, by the rule
  above; a pair with an absent or an empty table has none.
\<close>

definition compared_discrepancies ::
  "string \<Rightarrow> table option \<Rightarrow> string \<Rightarrow> table option \<Rightarrow> discrepancy list" where
  "compared_discrepancies nameA sourceA nameB sourceB =
     (case (sourceA, sourceB) of
        (Some tableA, Some tableB) \<Rightarrow>
          if tableA \<noteq> [] \<and> tableB \<noteq> []
          then concat (map (discrepancy_rule nameA tableA nameB tableB) (all_ids tableA tableB))
          else []
      | _ \<Rightarrow> [])"

text \<open>
  The \<^verbatim>\<open>errors\<close> component of a comparison, and what the loop of the driver adds for one
  pair under its guard, as the code has it.
\<close>

definition errors_of :: "py_error + (discrepancy list \<times> discrepancy list) \<Rightarrow> discrepancy list" where
  "errors_of r = (case r of Inl e \<Rightarrow> [] | Inr (errors, warnings) \<Rightarrow> errors)"

definition guarded_errors :: "string \<Rightarrow> table option \<Rightarrow> string \<Rightarrow> table option \<Rightarrow> discrepancy list" where
  "guarded_errors name1 s1 name2 s2 =
     (if truthy s1 \<and> truthy s2 then errors_of (compare_crcs name1 s1 name2 s2) else [])"

definition pair_errors :: "sources \<Rightarrow> string \<times> string \<Rightarrow> discrepancy list" where
  "pair_errors sources p =
     (case p of (name1, name2) \<Rightarrow>
        guarded_errors name1 (sources_get sources name1) name2 (sources_get sources name2))"

text \<open>Two small tables used as concrete inputs.\<close>

definition tabA :: table where
  "tabA = [(25002, \<lparr>name = ''CHECK_IN'', crc = 100, len = 20\<rparr>), (3, \<lparr>name = ''X'', crc = 1, len = 20\<rparr>)]"

definition tabA20 :: table where
  "tabA20 = [(25002, \<lparr>name = ''CHECK_IN'', crc = 100, len = 20\<rparr>)]"

definition tabA24 :: table where
  "tabA24 = [(25002, \<lparr>name = ''CHECK_IN'', crc = 100, len = 24\<rparr>)]"

definition tabB :: table where
  "tabB = [(25002, \<lparr>name = ''CHECK_IN'', crc = -101, len = 20\<rparr>), (7, \<lparr>name = ''Y'', crc = 1, len = 20\<rparr>)]"

text \<open>
  The catalog entries of a text, in the words of the specification: each 7-tuple gives its
  id with a descriptor of its second and fourth numbers (the integrity code and max_length)
  under the catalog's name for the id, and the tuples whose id is no catalog id are
  discarded. The example is the one-line block of the specification.
\<close>

definition catalog_name :: "int \<Rightarrow> string" where
  "catalog_name i =
     (case map fst (filter (\<lambda>(k, v). v = i) NAVLINK_MESSAGES) of [] \<Rightarrow> [] | nm # _ \<Rightarrow> nm)"

definition tuple_entry :: "string \<times> string \<times> string \<times> string \<Rightarrow> int \<times> descriptor" where
  "tuple_entry e =
     (case e of (e0, e1, e2, e3) \<Rightarrow>
        (int (digits_value e0),
         \<lparr>name = catalog_name (int (digits_value e0)),
          crc = int (digits_value e1), len = int (digits_value e3)\<rparr>))"

definition catalog_entries :: "string \<Rightarrow> (int \<times> descriptor) list" where
  "catalog_entries content =
     filter (\<lambda>(i, d). i \<in> set (map snd NAVLINK_MESSAGES)) (map tuple_entry (findall content))"

text \<open>The first four numbers of a tuple are within the digit limit of \<^verbatim>\<open>int\<close>.\<close>

definition fields_fit :: "string \<times> string \<times> string \<times> string \<Rightarrow> bool" where
  "fields_fit e =
     (case e of (e0, e1, e2, e3) \<Rightarrow>
        length e0 \<le> int_max_str_digits \<and> length e1 \<le> int_max_str_digits
        \<and> length e2 \<le> int_max_str_digits \<and> length e3 \<le> int_max_str_digits)"

text \<open>
  The text of a 7-tuple: seven runs of digits in braces, a comma after each but the last,
  and any white space after a comma. A text is free of tuple starts when no opening brace
  in it stands before a digit. A block is a list of 7-tuples, each after a text free of
  tuple starts, and such a text at the end; the line breaks are part of those texts and of
  the white space.
\<close>

type_synonym fields = "string \<times> string \<times> string \<times> string \<times> string \<times> string \<times> string"

type_synonym gaps = "string \<times> string \<times> string \<times> string \<times> string \<times> string"

fun tuple_text :: "fields \<Rightarrow> gaps \<Rightarrow> string" where
  "tuple_text (g1, g2, g3, g4, g5, g6, g7) (w1, w2, w3, w4, w5, w6) =
     ''{'' @ g1 @ '','' @ w1 @ g2 @ '','' @ w2 @ g3 @ '','' @ w3 @ g4 @ '','' @ w4
       @ g5 @ '','' @ w5 @ g6 @ '','' @ w6 @ g7 @ ''}''"

fun seven_tuple :: "fields \<Rightarrow> gaps \<Rightarrow> bool" where
  "seven_tuple (g1, g2, g3, g4, g5, g6, g7) (w1, w2, w3, w4, w5, w6) =
     (isdigit g1 \<and> isdigit g2 \<and> isdigit g3 \<and> isdigit g4 \<and> isdigit g5 \<and> isdigit g6 \<and> isdigit g7
      \<and> list_all is_space w1 \<and> list_all is_space w2 \<and> list_all is_space w3
      \<and> list_all is_space w4 \<and> list_all is_space w5 \<and> list_all is_space w6)"

fun first_four :: "fields \<Rightarrow> string \<times> string \<times> string \<times> string" where
  "first_four (g1, g2, g3, g4, g5, g6, g7) = (g1, g2, g3, g4)"

fun no_tuple_start :: "string \<Rightarrow> bool" where
  "no_tuple_start [] = True"
| "no_tuple_start [c] = True"
| "no_tuple_start (c # d # r) = (\<not> (c = CHR ''{'' \<and> is_digit d) \<and> no_tuple_start (d # r))"

fun block_text :: "(string \<times> fields \<times> gaps) list \<Rightarrow> string \<Rightarrow> string" where
  "block_text [] tail = tail"
| "block_text ((sep, gs, ws) # items) tail = sep @ tuple_text gs ws @ block_text items tail"

definition block_ok :: "(string \<times> fields \<times> gaps) list \<Rightarrow> string \<Rightarrow> bool" where
  "block_ok items tail =
     (list_all (\<lambda>(sep, gs, ws). no_tuple_start sep \<and> seven_tuple gs ws) items \<and> no_tuple_start tail)"

definition example_header :: string where
  "example_header = ''#define MAVLINK_MESSAGE_CRCS {{25002, 100, 20, 20, 0, 0, 0}, {1, 50, 9, 9, 0,0,0}}''"

text \<open>A header with a 7-tuple after the end of the table block.\<close>

definition stray_header :: string where
  "stray_header = ''#define MAVLINK_MESSAGE_CRCS {{25002, 100, 20, 20, 0, 0, 0}} {25003, 7, 1, 1, 0, 0, 0}''"

text \<open>
  The key and converted value of each parameter that has an equals sign, in the order of
  the command line.
\<close>

definition param_pairs :: "string list \<Rightarrow> (string \<times> pyval) list" where
  "param_pairs params =
     map (\<lambda>p. (fst (split_param p), convert_value (snd (split_param p))))
       (filter (\<lambda>p. CHR ''='' \<in> set p) params)"

text \<open>
  How each callback of a list ends when the list is run in order on one message, each
  callback starting in the world the one before it left.
\<close>

fun callback_results :: "'w callback list \<Rightarrow> message \<Rightarrow> 'w \<Rightarrow> cb_result list" where
  "callback_results [] msg w = []"
| "callback_results (cb # cbs) msg w = fst (cb msg w) # callback_results cbs msg (snd (cb msg w))"

fun error_lines :: "cb_result list \<Rightarrow> string list" where
  "error_lines [] = []"
| "error_lines (Returned # rs) = error_lines rs"
| "error_lines (Raised e # rs) = (''Callback error: '' @ e) # error_lines rs"

text \<open>Example callbacks on a world that lists who ran, and an example message.\<close>

definition cb_failing :: "string list callback" where
  "cb_failing = (\<lambda>msg w. (Raised ''boom'', w @ [''failing'']))"

definition cb_second :: "string list callback" where
  "cb_second = (\<lambda>msg w. (Returned, w @ [''second'']))"

definition cb_wild :: "string list callback" where
  "cb_wild = (\<lambda>msg w. (Returned, w @ [''wild'']))"

definition example_callbacks :: "string list callbacks" where
  "example_callbacks =
     on_message (on_message (on_message [] ''*'' cb_wild) ''CHECK_IN'' cb_failing) ''CHECK_IN'' cb_second"

definition check_in_msg :: message where
  "check_in_msg = \<lparr>get_type = ''CHECK_IN'', get_srcSystem = 2, to_dict = [(''boot_id'', PyInt 123)]\<rparr>"

text \<open>
  The polls a wait makes inside its deadline, and whether one of them brings a heartbeat of
  the given source system.
\<close>

definition polls_before :: "real \<Rightarrow> poll list \<Rightarrow> poll list" where
  "polls_before deadline polls = takeWhile (\<lambda>(now, m). now < deadline) polls"

definition heartbeat_seen :: "int \<Rightarrow> poll list \<Rightarrow> bool" where
  "heartbeat_seen sysid polls =
     list_ex (\<lambda>(now, m). case m of None \<Rightarrow> False | Some msg \<Rightarrow> get_srcSystem msg = sysid) polls"

definition deadline_reached :: "real \<Rightarrow> poll list \<Rightarrow> bool" where
  "deadline_reached deadline polls = list_ex (\<lambda>(now, m). \<not> now < deadline) polls"

text \<open>
  An environment in which session 2 receives, one second into its wait, a heartbeat whose
  source system is 251, the identity of session 1, and nothing else before the deadline.
\<close>

definition heartbeat_from :: "int \<Rightarrow> message" where
  "heartbeat_from sysid = \<lparr>get_type = ''HEARTBEAT'', get_srcSystem = sysid, to_dict = []\<rparr>"

definition example_env :: harness_env where
  "example_env =
     \<lparr>connect1_ok = True, connect2_ok = True,
      start2 = 0, polls2 = [(0, None), (1, Some (heartbeat_from 251)), (11, None)],
      start1 = 11, polls1 = [(11, Some (heartbeat_from 1)), (12, Some (heartbeat_from 2)), (22, None)],
      received_log = []\<rparr>"

section \<open>Properties of the comparator\<close>

lemma str_nat_digit: "n < 10 \<Longrightarrow> str_nat n = [digit_char n]"
  by (subst str_nat.simps) simp

lemma str_nat_more: "\<not> n < 10 \<Longrightarrow> str_nat n = str_nat (n div 10) @ [digit_char (n mod 10)]"
  by (subst str_nat.simps) simp

lemmas str_eval = str_int_def str_nat_digit str_nat_more digit_char_def crc_mismatch_def missing_in_def

lemma keys_map_of: "i \<in> keys t \<longleftrightarrow> map_of t i \<noteq> None"
  by (simp add: keys_def map_of_eq_None_iff)

lemma compare_step_rule:
  assumes "i \<in> keys t1 \<union> keys t2"
  shows "compare_step n1 t1 n2 t2 errors i = Inr (errors @ discrepancy_rule n1 t1 n2 t2 i)"
  using assms
  by (auto simp: compare_step_def discrepancy_rule_def getitem_def keys_map_of split: option.splits)

lemma compare_loop_rule:
  assumes "set ids \<subseteq> keys t1 \<union> keys t2"
  shows "compare_loop n1 t1 n2 t2 ids errors
           = Inr (errors @ concat (map (discrepancy_rule n1 t1 n2 t2) ids))"
  using assms
proof (induction ids arbitrary: errors)
  case Nil
  then show ?case by simp
next
  case (Cons i ids)
  then have "i \<in> keys t1 \<union> keys t2" and "set ids \<subseteq> keys t1 \<union> keys t2" by auto
  then show ?case using Cons.IH by (simp add: compare_step_rule)
qed

lemma finite_keys: "finite (keys t)"
  by (simp add: keys_def)

lemma set_all_ids: "set (all_ids t1 t2) = keys t1 \<union> keys t2"
  by (simp add: all_ids_def finite_keys)

lemma sorted_all_ids: "sorted (all_ids t1 t2)" and distinct_all_ids: "distinct (all_ids t1 t2)"
  by (simp_all add: all_ids_def)

lemma all_ids_commute: "all_ids t2 t1 = all_ids t1 t2"
  by (simp add: all_ids_def Un_commute)

lemma all_ids_code: "all_ids t1 t2 = sort (remdups (map fst t1 @ map fst t2))"
  unfolding all_ids_def keys_def set_append [symmetric] map_append [symmetric]
  by (simp only: sorted_list_of_set_sort_remdups)

lemma compare_crcs_rule:
  "compare_crcs n1 (Some t1) n2 (Some t2)
     = Inr (concat (map (discrepancy_rule n1 t1 n2 t2) (all_ids t1 t2)), [])"
  by (simp add: compare_crcs_def compare_loop_rule set_all_ids)

lemma msg_id_rule:
  "map msg_id (discrepancy_rule n1 t1 n2 t2 i) = (if discrepant t1 t2 i then [i] else [])"
  by (simp add: discrepancy_rule_def discrepant_def split: option.splits)

lemma msg_ids_concat_rule:
  "map msg_id (concat (map (discrepancy_rule n1 t1 n2 t2) ids)) = filter (discrepant t1 t2) ids"
  by (induction ids) (simp_all add: msg_id_rule)

lemma discrepant_commute: "discrepant t2 t1 = discrepant t1 t2"
  by (auto simp: discrepant_def fun_eq_iff split: option.splits)

lemma rule_in_concat:
  "i \<in> set ids \<Longrightarrow> e \<in> set (discrepancy_rule n1 t1 n2 t2 i)
     \<Longrightarrow> e \<in> set (concat (map (discrepancy_rule n1 t1 n2 t2) ids))"
  by auto

text \<open>
  C4: for two non-absent tables, compare visits the ids of the union of both key sets in
  ascending order (the id list is sorted, without repetition, and its set is the union)
  and the result is, id by id, what the rule gives: missing in B named from A's entry,
  missing in A named from B's entry, an integrity mismatch with both values, or nothing.
\<close>

theorem compare_crcs_follows_rule:
  "compare_crcs nameA (Some tableA) nameB (Some tableB)
     = Inr (concat (map (discrepancy_rule nameA tableA nameB tableB) (all_ids tableA tableB)), [])
   \<and> sorted (all_ids tableA tableB) \<and> distinct (all_ids tableA tableB)
   \<and> set (all_ids tableA tableB) = keys tableA \<union> keys tableB"
  by (simp add: compare_crcs_rule sorted_all_ids distinct_all_ids set_all_ids)

theorem compare_crcs_follows_rule_witness:
  "compare_crcs ''a'' (Some tabA) ''b'' (Some tabB)
     = Inr ([\<lparr>msg_id = 3, msg_name = ''X'', issue = ''Missing in b''\<rparr>,
             \<lparr>msg_id = 7, msg_name = ''Y'', issue = ''Missing in a''\<rparr>,
             \<lparr>msg_id = 25002, msg_name = ''CHECK_IN'', issue = ''CRC mismatch: a=100 vs b=-101''\<rparr>], [])"
  using compare_crcs_follows_rule [of "''a''" tabA "''b''" tabB]
  by (simp add: tabA_def tabB_def discrepancy_rule_def all_ids_code str_eval)

text \<open>
  C5: when at least one of the two tables is the absence marker, compare returns the empty
  discrepancy list and raises nothing.
\<close>

theorem compare_crcs_absent:
  "compare_crcs name1 None name2 source2_crcs = Inr ([], [])
   \<and> compare_crcs name1 source1_crcs name2 None = Inr ([], [])"
  by (simp add: compare_crcs_def split: option.splits)

theorem compare_crcs_absent_witness:
  "compare_crcs ''pymavlink'' None ''router'' (Some tabB) = Inr ([], [])
   \<and> compare_crcs ''ardupilot'' (Some tabA) ''router'' None = Inr ([], [])"
  using compare_crcs_absent [of "''pymavlink''" "''router''" "Some tabB"]
        compare_crcs_absent [of "''ardupilot''" "''router''" "Some tabA"]
  by simp

text \<open>
  C3: an id present in both tables with equal integrity codes is in no discrepancy,
  whatever the lengths; two tables with the same ids and the same integrity codes, which may
  differ in their lengths, give the empty list.
\<close>

theorem length_difference_no_discrepancy:
  "\<exists>errors. compare_crcs nameA (Some tableA) nameB (Some tableB) = Inr (errors, [])
     \<and> (\<forall>i a b. map_of tableA i = Some a \<and> map_of tableB i = Some b \<and> crc a = crc b
            \<longrightarrow> i \<notin> msg_id ` set errors)
     \<and> (keys tableA = keys tableB
          \<and> (\<forall>i a b. map_of tableA i = Some a \<and> map_of tableB i = Some b \<longrightarrow> crc a = crc b)
        \<longrightarrow> errors = [])"
proof -
  let ?ids = "all_ids tableA tableB"
  let ?errors = "concat (map (discrepancy_rule nameA tableA nameB tableB) ?ids)"
  have ids: "map msg_id ?errors = filter (discrepant tableA tableB) ?ids"
    by (rule msg_ids_concat_rule)
  have a: "i \<notin> msg_id ` set ?errors"
    if "map_of tableA i = Some a" "map_of tableB i = Some b" "crc a = crc b" for i a b
  proof -
    have "\<not> discrepant tableA tableB i" using that by (simp add: discrepant_def)
    then have "i \<notin> set (map msg_id ?errors)" unfolding ids by simp
    then show ?thesis by simp
  qed
  have b: "?errors = []"
    if k: "keys tableA = keys tableB"
      and c: "\<forall>i a b. map_of tableA i = Some a \<and> map_of tableB i = Some b \<longrightarrow> crc a = crc b"
  proof -
    have "\<not> discrepant tableA tableB i" for i
      using k c keys_map_of [of i tableA] keys_map_of [of i tableB]
      by (auto simp: discrepant_def split: option.splits)
    then have "map msg_id ?errors = []" unfolding ids by simp
    then show ?thesis by (simp only: map_is_Nil_conv)
  qed
  show ?thesis
    using a b by (intro exI [of _ ?errors]) (auto simp: compare_crcs_rule)
qed

theorem length_difference_no_discrepancy_witness:
  "compare_crcs ''ardupilot'' (Some [(25002, \<lparr>name = ''CHECK_IN'', crc = 100, len = 20\<rparr>)])
                ''router'' (Some [(25002, \<lparr>name = ''CHECK_IN'', crc = 100, len = 24\<rparr>)])
     = Inr ([], [])"
  using length_difference_no_discrepancy
    [of "''ardupilot''" "[(25002, \<lparr>name = ''CHECK_IN'', crc = 100, len = 20\<rparr>)]"
        "''router''" "[(25002, \<lparr>name = ''CHECK_IN'', crc = 100, len = 24\<rparr>)]"]
  by (auto simp: keys_def split: if_splits)

text \<open>
  C2: compare(A,B) and compare(B,A) report the same ids, those that are discrepant; an id
  missing on one side is reported in both call orders as missing in that same source; an
  integrity mismatch is reported in both call orders with the same two values.
\<close>

theorem compare_crcs_symmetric:
  "\<exists>eAB eBA.
      compare_crcs nameA (Some tableA) nameB (Some tableB) = Inr (eAB, [])
    \<and> compare_crcs nameB (Some tableB) nameA (Some tableA) = Inr (eBA, [])
    \<and> map msg_id eAB = map msg_id eBA
    \<and> set (map msg_id eAB) = {i. discrepant tableA tableB i}
    \<and> (\<forall>i b. map_of tableA i = None \<and> map_of tableB i = Some b \<longrightarrow>
          \<lparr>msg_id = i, msg_name = name b, issue = missing_in nameA\<rparr> \<in> set eAB \<inter> set eBA)
    \<and> (\<forall>i a. map_of tableA i = Some a \<and> map_of tableB i = None \<longrightarrow>
          \<lparr>msg_id = i, msg_name = name a, issue = missing_in nameB\<rparr> \<in> set eAB \<inter> set eBA)
    \<and> (\<forall>i a b. map_of tableA i = Some a \<and> map_of tableB i = Some b \<and> crc a \<noteq> crc b \<longrightarrow>
          \<lparr>msg_id = i, msg_name = name a, issue = crc_mismatch nameA (crc a) nameB (crc b)\<rparr> \<in> set eAB
        \<and> \<lparr>msg_id = i, msg_name = name b, issue = crc_mismatch nameB (crc b) nameA (crc a)\<rparr> \<in> set eBA)"
proof -
  let ?ids = "all_ids tableA tableB"
  let ?eAB = "concat (map (discrepancy_rule nameA tableA nameB tableB) ?ids)"
  let ?eBA = "concat (map (discrepancy_rule nameB tableB nameA tableA) ?ids)"
  have cAB: "compare_crcs nameA (Some tableA) nameB (Some tableB) = Inr (?eAB, [])"
    by (rule compare_crcs_rule)
  have cBA: "compare_crcs nameB (Some tableB) nameA (Some tableA) = Inr (?eBA, [])"
    by (simp add: compare_crcs_rule all_ids_commute [of tableA tableB])
  have idsAB: "map msg_id ?eAB = filter (discrepant tableA tableB) ?ids"
    by (rule msg_ids_concat_rule)
  have idsBA: "map msg_id ?eBA = filter (discrepant tableA tableB) ?ids"
    by (simp add: msg_ids_concat_rule discrepant_commute [of tableA tableB])
  have same: "map msg_id ?eAB = map msg_id ?eBA"
    by (simp only: idsAB idsBA)
  have in_ids: "i \<in> set ?ids" if "map_of tableA i \<noteq> None \<or> map_of tableB i \<noteq> None" for i
    using that by (auto simp: set_all_ids keys_map_of)
  have dset: "set (map msg_id ?eAB) = {i. discrepant tableA tableB i}"
  proof -
    have "discrepant tableA tableB i \<Longrightarrow> i \<in> set ?ids" for i
      by (rule in_ids) (auto simp: discrepant_def split: option.splits)
    then show ?thesis unfolding idsAB by auto
  qed
  have mA: "\<lparr>msg_id = i, msg_name = name b, issue = missing_in nameA\<rparr> \<in> set ?eAB \<inter> set ?eBA"
    if "map_of tableA i = None" "map_of tableB i = Some b" for i b
  proof -
    have "i \<in> set ?ids" using that by (intro in_ids) simp
    moreover have "\<lparr>msg_id = i, msg_name = name b, issue = missing_in nameA\<rparr>
        \<in> set (discrepancy_rule nameA tableA nameB tableB i)"
      using that by (simp add: discrepancy_rule_def)
    moreover have "\<lparr>msg_id = i, msg_name = name b, issue = missing_in nameA\<rparr>
        \<in> set (discrepancy_rule nameB tableB nameA tableA i)"
      using that by (simp add: discrepancy_rule_def)
    ultimately show ?thesis by (simp only: Int_iff rule_in_concat)
  qed
  have mB: "\<lparr>msg_id = i, msg_name = name a, issue = missing_in nameB\<rparr> \<in> set ?eAB \<inter> set ?eBA"
    if "map_of tableA i = Some a" "map_of tableB i = None" for i a
  proof -
    have "i \<in> set ?ids" using that by (intro in_ids) simp
    moreover have "\<lparr>msg_id = i, msg_name = name a, issue = missing_in nameB\<rparr>
        \<in> set (discrepancy_rule nameA tableA nameB tableB i)"
      using that by (simp add: discrepancy_rule_def)
    moreover have "\<lparr>msg_id = i, msg_name = name a, issue = missing_in nameB\<rparr>
        \<in> set (discrepancy_rule nameB tableB nameA tableA i)"
      using that by (simp add: discrepancy_rule_def)
    ultimately show ?thesis by (simp only: Int_iff rule_in_concat)
  qed
  have mm: "\<lparr>msg_id = i, msg_name = name a, issue = crc_mismatch nameA (crc a) nameB (crc b)\<rparr> \<in> set ?eAB
        \<and> \<lparr>msg_id = i, msg_name = name b, issue = crc_mismatch nameB (crc b) nameA (crc a)\<rparr> \<in> set ?eBA"
    if "map_of tableA i = Some a" "map_of tableB i = Some b" "crc a \<noteq> crc b" for i a b
  proof -
    have "i \<in> set ?ids" using that by (intro in_ids) simp
    moreover have "\<lparr>msg_id = i, msg_name = name a, issue = crc_mismatch nameA (crc a) nameB (crc b)\<rparr>
        \<in> set (discrepancy_rule nameA tableA nameB tableB i)"
      using that by (simp add: discrepancy_rule_def)
    moreover have "\<lparr>msg_id = i, msg_name = name b, issue = crc_mismatch nameB (crc b) nameA (crc a)\<rparr>
        \<in> set (discrepancy_rule nameB tableB nameA tableA i)"
      using that by (simp add: discrepancy_rule_def)
    ultimately show ?thesis by (simp only: rule_in_concat)
  qed
  show ?thesis
    apply (rule exI [of _ ?eAB], rule exI [of _ ?eBA])
    apply (intro conjI allI impI)
           apply (rule cAB)
          apply (rule cBA)
         apply (rule same)
        apply (rule dset)
       apply (erule conjE, erule (1) mA)
      apply (erule conjE, erule (1) mB)
     apply (elim conjE, rule mm [THEN conjunct1], assumption+)
    apply (elim conjE, rule mm [THEN conjunct2], assumption+)
    done
qed

theorem compare_crcs_symmetric_witness:
  "\<exists>eAB eBA.
      compare_crcs ''a'' (Some tabA) ''b'' (Some tabB) = Inr (eAB, [])
    \<and> compare_crcs ''b'' (Some tabB) ''a'' (Some tabA) = Inr (eBA, [])
    \<and> map msg_id eAB = map msg_id eBA
    \<and> \<lparr>msg_id = 7, msg_name = ''Y'', issue = ''Missing in a''\<rparr> \<in> set eAB \<inter> set eBA
    \<and> \<lparr>msg_id = 3, msg_name = ''X'', issue = ''Missing in b''\<rparr> \<in> set eAB \<inter> set eBA
    \<and> \<lparr>msg_id = 25002, msg_name = ''CHECK_IN'', issue = ''CRC mismatch: a=100 vs b=-101''\<rparr> \<in> set eAB
    \<and> \<lparr>msg_id = 25002, msg_name = ''CHECK_IN'', issue = ''CRC mismatch: b=-101 vs a=100''\<rparr> \<in> set eBA"
proof -
  have a7: "map_of tabA 7 = None" and b7: "map_of tabB 7 = Some \<lparr>name = ''Y'', crc = 1, len = 20\<rparr>"
    and a3: "map_of tabA 3 = Some \<lparr>name = ''X'', crc = 1, len = 20\<rparr>" and b3: "map_of tabB 3 = None"
    and a2: "map_of tabA 25002 = Some \<lparr>name = ''CHECK_IN'', crc = 100, len = 20\<rparr>"
    and b2: "map_of tabB 25002 = Some \<lparr>name = ''CHECK_IN'', crc = -101, len = 20\<rparr>"
    by (simp_all add: tabA_def tabB_def)
  from compare_crcs_symmetric [of "''a''" tabA "''b''" tabB]
  obtain eAB eBA where
    1: "compare_crcs ''a'' (Some tabA) ''b'' (Some tabB) = Inr (eAB, [])"
    and 2: "compare_crcs ''b'' (Some tabB) ''a'' (Some tabA) = Inr (eBA, [])"
    and 3: "map msg_id eAB = map msg_id eBA"
    and 4: "\<forall>i b. map_of tabA i = None \<and> map_of tabB i = Some b \<longrightarrow>
          \<lparr>msg_id = i, msg_name = name b, issue = missing_in ''a''\<rparr> \<in> set eAB \<inter> set eBA"
    and 5: "\<forall>i a. map_of tabA i = Some a \<and> map_of tabB i = None \<longrightarrow>
          \<lparr>msg_id = i, msg_name = name a, issue = missing_in ''b''\<rparr> \<in> set eAB \<inter> set eBA"
    and 6: "\<forall>i a b. map_of tabA i = Some a \<and> map_of tabB i = Some b \<and> crc a \<noteq> crc b \<longrightarrow>
          \<lparr>msg_id = i, msg_name = name a, issue = crc_mismatch ''a'' (crc a) ''b'' (crc b)\<rparr> \<in> set eAB
        \<and> \<lparr>msg_id = i, msg_name = name b, issue = crc_mismatch ''b'' (crc b) ''a'' (crc a)\<rparr> \<in> set eBA"
    by blast
  from 4 a7 b7 have w7: "\<lparr>msg_id = 7, msg_name = ''Y'', issue = ''Missing in a''\<rparr> \<in> set eAB \<inter> set eBA"
    by (fastforce simp: missing_in_def)
  from 5 a3 b3 have w3: "\<lparr>msg_id = 3, msg_name = ''X'', issue = ''Missing in b''\<rparr> \<in> set eAB \<inter> set eBA"
    by (fastforce simp: missing_in_def)
  from 6 [rule_format, OF conjI [OF a2 conjI [OF b2]]]
  have w2: "\<lparr>msg_id = 25002, msg_name = ''CHECK_IN'', issue = ''CRC mismatch: a=100 vs b=-101''\<rparr> \<in> set eAB
    \<and> \<lparr>msg_id = 25002, msg_name = ''CHECK_IN'', issue = ''CRC mismatch: b=-101 vs a=100''\<rparr> \<in> set eBA"
    by (simp add: str_eval)
  from 1 2 3 w7 w3 w2 show ?thesis by blast
qed

section \<open>Properties of the driver\<close>

lemma sources_get_main:
  "sources_get (main_sources py ap rt) ''pymavlink'' = py"
  "sources_get (main_sources py ap rt) ''ardupilot'' = ap"
  "sources_get (main_sources py ap rt) ''router'' = rt"
  by (simp_all add: sources_get_def main_sources_def split: option.splits)

lemma sources_item_main:
  "sources_item (main_sources py ap rt) ''pymavlink'' = Inr py"
  "sources_item (main_sources py ap rt) ''ardupilot'' = Inr ap"
  "sources_item (main_sources py ap rt) ''router'' = Inr rt"
  by (simp_all add: sources_item_def main_sources_def)

lemma truthy_Some: "truthy v \<Longrightarrow> \<exists>t. v = Some t"
  by (cases v) (simp_all add: truthy_def)

lemma extend_if_nonempty: "(if errors \<noteq> [] then all_errors @ errors else all_errors) = all_errors @ errors"
  by simp

lemma compare_pairs_step:
  assumes "sources_item sources name1 = Inr (sources_get sources name1)"
      and "sources_item sources name2 = Inr (sources_get sources name2)"
  shows "compare_pairs sources ((name1, name2) # ps) all_errors
           = compare_pairs sources ps (all_errors @ pair_errors sources (name1, name2))"
proof (cases "truthy (sources_get sources name1) \<and> truthy (sources_get sources name2)")
  case True
  then obtain t1 t2 where t: "sources_get sources name1 = Some t1" "sources_get sources name2 = Some t2"
    by (auto dest!: truthy_Some)
  show ?thesis
    using True assms
    by (simp add: t pair_errors_def guarded_errors_def errors_of_def compare_crcs_rule extend_if_nonempty del: append_is_Nil_conv concat_eq_Nil_conv)
next
  case False
  then show ?thesis by (auto simp: pair_errors_def guarded_errors_def)
qed

lemma compare_pairs_main:
  "compare_pairs (main_sources py ap rt) pairs []
     = Inr (concat (map (pair_errors (main_sources py ap rt)) pairs))"
  by (simp add: pairs_def compare_pairs_step sources_item_main sources_get_main del: compare_pairs.simps(2))

lemma main_exit:
  "main py ap rt = Inr (if concat (map (pair_errors (main_sources py ap rt)) pairs) = [] then 0 else 1)"
  by (simp add: main_def compare_pairs_main)

lemma pair_errors_main:
  "pair_errors (main_sources py ap rt) (''pymavlink'', ''ardupilot'') = guarded_errors ''pymavlink'' py ''ardupilot'' ap"
  "pair_errors (main_sources py ap rt) (''pymavlink'', ''router'') = guarded_errors ''pymavlink'' py ''router'' rt"
  "pair_errors (main_sources py ap rt) (''ardupilot'', ''router'') = guarded_errors ''ardupilot'' ap ''router'' rt"
  by (simp_all add: pair_errors_def sources_get_main)

lemma all_errors_main:
  "concat (map (pair_errors (main_sources py ap rt)) pairs)
     = guarded_errors ''pymavlink'' py ''ardupilot'' ap
       @ guarded_errors ''pymavlink'' py ''router'' rt
       @ guarded_errors ''ardupilot'' ap ''router'' rt"
  by (simp add: pairs_def pair_errors_main)

lemma guarded_errors_skip:
  "guarded_errors name1 (Some []) name2 s2 = []"
  "guarded_errors name1 None name2 s2 = []"
  "guarded_errors name1 s1 name2 (Some []) = []"
  "guarded_errors name1 s1 name2 None = []"
  by (simp_all add: guarded_errors_def truthy_def)

lemma guarded_errors_agree:
  assumes "s1 \<noteq> None \<and> s2 \<noteq> None \<longrightarrow> errors_of (compare_crcs name1 s1 name2 s2) = []"
  shows "guarded_errors name1 s1 name2 s2 = []"
  using assms by (auto simp: guarded_errors_def dest!: truthy_Some)

lemma guarded_errors_compared:
  "guarded_errors name1 s1 name2 s2 = compared_discrepancies name1 s1 name2 s2"
proof (cases s1)
  case None
  then show ?thesis by (simp add: guarded_errors_def truthy_def compared_discrepancies_def)
next
  case s1: (Some t1)
  show ?thesis
  proof (cases s2)
    case None
    then show ?thesis by (simp add: guarded_errors_def truthy_def compared_discrepancies_def s1)
  next
    case (Some t2)
    then show ?thesis
      by (simp add: guarded_errors_def truthy_def compared_discrepancies_def s1 errors_of_def
            compare_crcs_rule)
  qed
qed

lemma compared_discrepancies_agree:
  assumes "s1 \<noteq> None \<and> s2 \<noteq> None \<longrightarrow> errors_of (compare_crcs name1 s1 name2 s2) = []"
  shows "compared_discrepancies name1 s1 name2 s2 = []"
  using guarded_errors_agree [OF assms] by (simp only: guarded_errors_compared)

lemma compare_pairs_compared:
  "compare_pairs (main_sources py ap rt) pairs []
     = Inr (compared_discrepancies ''pymavlink'' py ''ardupilot'' ap
            @ compared_discrepancies ''pymavlink'' py ''router'' rt
            @ compared_discrepancies ''ardupilot'' ap ''router'' rt)"
  by (simp only: compare_pairs_main all_errors_main guarded_errors_compared)

lemma main_compared:
  "main py ap rt
     = Inr (if compared_discrepancies ''pymavlink'' py ''ardupilot'' ap
                @ compared_discrepancies ''pymavlink'' py ''router'' rt
                @ compared_discrepancies ''ardupilot'' ap ''router'' rt = [] then 0 else 1)"
  by (simp only: main_exit all_errors_main guarded_errors_compared)

text \<open>
  C1, as the code has it: when the three extractions return, the driver raises nothing
  and its exit status is 0 exactly when the concatenation of the discrepancies of the
  pairs it compares, those whose two tables are both present and not empty, is empty, and
  1 exactly when it is not; that concatenation is what the loop collects. When every pair
  of sources that are both available agrees, whatever sources are unavailable, the exit
  status is 0.
\<close>

theorem driver_exit_status:
  "compare_pairs (main_sources py ap rt) pairs []
     = Inr (compared_discrepancies ''pymavlink'' py ''ardupilot'' ap
            @ compared_discrepancies ''pymavlink'' py ''router'' rt
            @ compared_discrepancies ''ardupilot'' ap ''router'' rt)
   \<and> run_main (Inr py) (Inr ap) (Inr rt)
     = Inr (if compared_discrepancies ''pymavlink'' py ''ardupilot'' ap
                @ compared_discrepancies ''pymavlink'' py ''router'' rt
                @ compared_discrepancies ''ardupilot'' ap ''router'' rt = [] then 0 else 1)
   \<and> (exit_status (run_main (Inr py) (Inr ap) (Inr rt)) = 0
        \<longleftrightarrow> compared_discrepancies ''pymavlink'' py ''ardupilot'' ap
                @ compared_discrepancies ''pymavlink'' py ''router'' rt
                @ compared_discrepancies ''ardupilot'' ap ''router'' rt = [])
   \<and> (exit_status (run_main (Inr py) (Inr ap) (Inr rt)) = 1
        \<longleftrightarrow> compared_discrepancies ''pymavlink'' py ''ardupilot'' ap
                @ compared_discrepancies ''pymavlink'' py ''router'' rt
                @ compared_discrepancies ''ardupilot'' ap ''router'' rt \<noteq> [])
   \<and> ((py \<noteq> None \<and> ap \<noteq> None \<longrightarrow> errors_of (compare_crcs ''pymavlink'' py ''ardupilot'' ap) = [])
        \<and> (py \<noteq> None \<and> rt \<noteq> None \<longrightarrow> errors_of (compare_crcs ''pymavlink'' py ''router'' rt) = [])
        \<and> (ap \<noteq> None \<and> rt \<noteq> None \<longrightarrow> errors_of (compare_crcs ''ardupilot'' ap ''router'' rt) = [])
        \<longrightarrow> exit_status (run_main (Inr py) (Inr ap) (Inr rt)) = 0)"
proof -
  let ?D = "compared_discrepancies ''pymavlink'' py ''ardupilot'' ap
            @ compared_discrepancies ''pymavlink'' py ''router'' rt
            @ compared_discrepancies ''ardupilot'' ap ''router'' rt"
  have r: "run_main (Inr py) (Inr ap) (Inr rt) = Inr (if ?D = [] then 0 else 1)"
    by (simp only: run_main_def sum.case main_compared)
  have z: "exit_status (run_main (Inr py) (Inr ap) (Inr rt)) = 0 \<longleftrightarrow> ?D = []"
    unfolding r by (simp add: exit_status_def)
  have o: "exit_status (run_main (Inr py) (Inr ap) (Inr rt)) = 1 \<longleftrightarrow> ?D \<noteq> []"
    unfolding r by (simp add: exit_status_def)
  have agree: "exit_status (run_main (Inr py) (Inr ap) (Inr rt)) = 0"
    if "py \<noteq> None \<and> ap \<noteq> None \<longrightarrow> errors_of (compare_crcs ''pymavlink'' py ''ardupilot'' ap) = []"
      and "py \<noteq> None \<and> rt \<noteq> None \<longrightarrow> errors_of (compare_crcs ''pymavlink'' py ''router'' rt) = []"
      and "ap \<noteq> None \<and> rt \<noteq> None \<longrightarrow> errors_of (compare_crcs ''ardupilot'' ap ''router'' rt) = []"
  proof -
    have "?D = []"
      using that by (simp only: compared_discrepancies_agree append_Nil)
    then show ?thesis by (simp only: z)
  qed
  show ?thesis
    using compare_pairs_compared [of py ap rt] r z o agree by blast
qed

lemma tabA20_tabA24_agree:
  "compare_crcs n1 (Some tabA20) n2 (Some tabA24) = Inr ([], [])"
  by (simp add: compare_crcs_rule all_ids_code discrepancy_rule_def tabA20_def tabA24_def)

lemma tabA_tabB_differ:
  "compared_discrepancies n1 (Some tabA) n2 (Some tabB) \<noteq> []"
  by (simp add: compared_discrepancies_def tabA_def tabB_def all_ids_code discrepancy_rule_def)

theorem driver_exit_status_witness:
  "exit_status (run_main (Inr None) (Inr (Some tabA20)) (Inr (Some tabA24))) = 0
   \<and> exit_status (run_main (Inr (Some tabA)) (Inr (Some tabB)) (Inr None)) = 1"
proof -
  have "errors_of (compare_crcs ''ardupilot'' (Some tabA20) ''router'' (Some tabA24)) = []"
    by (simp add: tabA20_tabA24_agree errors_of_def)
  then have 1: "exit_status (run_main (Inr None) (Inr (Some tabA20)) (Inr (Some tabA24))) = 0"
    using driver_exit_status [of None "Some tabA20" "Some tabA24"] by blast
  have "compared_discrepancies ''pymavlink'' (Some tabA) ''ardupilot'' (Some tabB)
          @ compared_discrepancies ''pymavlink'' (Some tabA) ''router'' None
          @ compared_discrepancies ''ardupilot'' (Some tabB) ''router'' None \<noteq> []"
    by (simp add: tabA_tabB_differ)
  then have 2: "exit_status (run_main (Inr (Some tabA)) (Inr (Some tabB)) (Inr None)) = 1"
    using driver_exit_status [of "Some tabA" "Some tabB" None] by blast
  from 1 2 show ?thesis by (rule conjI)
qed

lemma empty_vs_tabA_entries:
  "compare_crcs ''pymavlink'' (Some []) ''ardupilot'' (Some tabA)
     = Inr ([\<lparr>msg_id = 3, msg_name = ''X'', issue = ''Missing in pymavlink''\<rparr>,
             \<lparr>msg_id = 25002, msg_name = ''CHECK_IN'', issue = ''Missing in pymavlink''\<rparr>], [])"
  by (simp add: compare_crcs_rule all_ids_code discrepancy_rule_def tabA_def missing_in_def)

text \<open>
  The claim as stated, with a source available when its extraction did not return the
  absence marker, fails: with an empty table from pymavlink, a table of two entries from
  ardupilot and no router table, comparing the one available pair gives two discrepancies,
  and the exit status is 0.
\<close>

theorem empty_source_passes_despite_discrepancies:
  "compare_crcs ''pymavlink'' (Some []) ''ardupilot'' (Some tabA)
     = Inr ([\<lparr>msg_id = 3, msg_name = ''X'', issue = ''Missing in pymavlink''\<rparr>,
             \<lparr>msg_id = 25002, msg_name = ''CHECK_IN'', issue = ''Missing in pymavlink''\<rparr>], [])
   \<and> exit_status (run_main (Inr (Some [])) (Inr (Some tabA)) (Inr None)) = 0"
proof -
  have "run_main (Inr (Some [])) (Inr (Some tabA)) (Inr None) = Inr 0"
    by (simp add: run_main_def main_compared compared_discrepancies_def)
  then show ?thesis by (simp add: empty_vs_tabA_entries exit_status_def)
qed

lemma main_guarded:
  "main py ap rt = Inr (if guarded_errors ''pymavlink'' py ''ardupilot'' ap
                             @ guarded_errors ''pymavlink'' py ''router'' rt
                             @ guarded_errors ''ardupilot'' ap ''router'' rt = [] then 0 else 1)"
  by (simp only: main_exit all_errors_main)

lemma compare_pairs_guarded:
  "compare_pairs (main_sources py ap rt) pairs []
     = Inr (guarded_errors ''pymavlink'' py ''ardupilot'' ap
            @ guarded_errors ''pymavlink'' py ''router'' rt
            @ guarded_errors ''ardupilot'' ap ''router'' rt)"
  by (simp only: compare_pairs_main all_errors_main)

text \<open>
  C10: a source whose table is empty is skipped by the pair guard exactly as an
  unavailable one: the verdict is the same as with the absence marker in its place, the
  collected discrepancies are those of the pair of the other two sources alone, and with
  only one other source the verdict is 0.
\<close>

theorem empty_table_is_skipped:
  "main (Some []) ap rt = main None ap rt
   \<and> main py (Some []) rt = main py None rt
   \<and> main py ap (Some []) = main py ap None
   \<and> compare_pairs (main_sources (Some []) ap rt) pairs []
       = Inr (guarded_errors ''ardupilot'' ap ''router'' rt)
   \<and> compare_pairs (main_sources py (Some []) rt) pairs []
       = Inr (guarded_errors ''pymavlink'' py ''router'' rt)
   \<and> compare_pairs (main_sources py ap (Some [])) pairs []
       = Inr (guarded_errors ''pymavlink'' py ''ardupilot'' ap)
   \<and> main (Some []) ap None = Inr 0
   \<and> main py (Some []) None = Inr 0
   \<and> main None ap (Some []) = Inr 0"
  by (simp add: main_guarded compare_pairs_guarded guarded_errors_skip)

lemma empty_vs_tabA: "errors_of (compare_crcs ''pymavlink'' (Some []) ''ardupilot'' (Some tabA)) \<noteq> []"
  by (simp add: errors_of_def compare_crcs_rule all_ids_code discrepancy_rule_def tabA_def)

theorem empty_table_is_skipped_witness:
  "main (Some []) (Some tabA) None = Inr 0
   \<and> main (Some []) (Some tabA) (Some tabB) = main None (Some tabA) (Some tabB)
   \<and> errors_of (compare_crcs ''pymavlink'' (Some []) ''ardupilot'' (Some tabA)) \<noteq> []"
  using empty_table_is_skipped [of "Some tabA" None None]
        empty_table_is_skipped [of "Some tabA" "Some tabB" None]
        empty_vs_tabA
  by blast

section \<open>Properties of the text-artifact extractor\<close>

lemma catalog_filter_nonempty:
  "i \<in> set (map snd xs) \<Longrightarrow> map fst (filter (\<lambda>(k, v). v = i) xs) \<noteq> []"
  by (induction xs) auto

lemma is_digit_plain: "is_digit c \<Longrightarrow> \<not> is_c_space c \<and> c \<noteq> CHR ''+'' \<and> c \<noteq> CHR ''-'' \<and> c \<noteq> CHR ''_''"
  by (auto simp: is_digit_def is_c_space_def)

lemma isdigit_ends:
  assumes "isdigit v"
  shows "v \<noteq> [] \<and> is_digit (hd v) \<and> is_digit (last v) \<and> (\<forall>c \<in> set v. is_digit c)"
  using assms by (cases v) (auto simp: isdigit_def list_all_iff)

lemma strip_digits_end:
  assumes "v \<noteq> []" and "\<not> is_c_space (hd v)" and "\<not> is_c_space (last v)"
  shows "strip v = v"
proof -
  have 1: "dropWhile is_c_space v = v" using assms(1,2) by (cases v) auto
  have "rev v \<noteq> []" and "hd (rev v) = last v" using assms(1) by (simp_all add: hd_rev)
  with assms(3) have "\<not> is_c_space (hd (rev v))" by simp
  with \<open>rev v \<noteq> []\<close> have 2: "dropWhile is_c_space (rev v) = rev v"
    by (simp add: dropWhile_eq_self_iff)
  show ?thesis by (simp add: strip_def 1 2)
qed

lemma isdigit_digitpart: "isdigit v \<Longrightarrow> digitpart v"
proof (induction v rule: digitpart.induct)
  case 1
  then show ?case by (simp add: isdigit_def)
next
  case (2 c)
  then show ?case by (simp add: isdigit_def)
next
  case (3 c d r)
  then have "is_digit c" "is_digit d" "isdigit (d # r)" by (simp_all add: isdigit_def)
  with 3 show ?case by (auto dest: is_digit_plain)
qed

lemma isdigit_no_underscore: "isdigit v \<Longrightarrow> filter (\<lambda>c. c \<noteq> CHR ''_'') v = v"
  by (rule filter_True) (auto dest!: isdigit_ends is_digit_plain)

lemma py_int_digits_cases:
  assumes "isdigit v"
  shows "py_int v = (if length v > int_max_str_digits then Inl ValueError
                     else Inr (int (digits_value v)))"
proof -
  from isdigit_ends [OF assms] have e: "v \<noteq> []" "is_digit (hd v)" "is_digit (last v)" by simp_all
  have s: "strip v = v"
    using e by (intro strip_digits_end) (auto dest: is_digit_plain)
  have d: "drop_sign v = v" "take 1 v \<noteq> ''-''"
    using e by (cases v; auto simp: drop_sign_def dest: is_digit_plain)+
  show ?thesis
    using d(2) by (simp add: py_int_def s d(1) isdigit_digitpart [OF assms]
          isdigit_no_underscore [OF assms] Let_def)
qed

lemma py_int_minus:
  assumes "isdigit d"
  shows "py_int (CHR ''-'' # d)
     = (if length d > int_max_str_digits then Inl ValueError else Inr (- int (digits_value d)))"
proof -
  from isdigit_ends [OF assms] have e: "d \<noteq> []" "is_digit (last d)" by simp_all
  have s: "strip (CHR ''-'' # d) = CHR ''-'' # d"
    using e by (intro strip_digits_end) (auto simp: is_c_space_def dest: is_digit_plain)
  show ?thesis
    by (simp add: py_int_def s drop_sign_def isdigit_digitpart [OF assms]
          isdigit_no_underscore [OF assms] Let_def)
qed

lemma py_int_digits:
  assumes "isdigit v" and "length v \<le> int_max_str_digits"
  shows "py_int v = Inr (int (digits_value v))"
  using assms by (simp add: py_int_digits_cases)

lemma py_int_too_long:
  assumes "isdigit v" and "length v > int_max_str_digits"
  shows "py_int v = Inl ValueError"
  using assms by (simp add: py_int_digits_cases)

text \<open>The groups of a match are runs of digits.\<close>

lemma match_digits_isdigit: "match_digits s = Some (g, r) \<Longrightarrow> isdigit g"
  by (auto simp: match_digits_def isdigit_def list_all_iff split: if_splits dest: set_takeWhileD)

lemma match_field_isdigit: "match_field s = Some (g, r) \<Longrightarrow> isdigit g"
  by (auto simp: match_field_def split: Option.bind_splits dest: match_digits_isdigit)

lemma match_entry_isdigit:
  assumes "match_entry s = Some ((e0, e1, e2, e3), r)"
  shows "isdigit e0 \<and> isdigit e1 \<and> isdigit e2 \<and> isdigit e3"
proof -
  from assms obtain r0 r1 r2 r3 r4 where
    "match_field r0 = Some (e0, r1)" "match_field r1 = Some (e1, r2)"
    "match_field r2 = Some (e2, r3)" "match_field r3 = Some (e3, r4)"
    by (auto simp: match_entry_def split: Option.bind_splits)
  then show ?thesis by (auto dest: match_field_isdigit)
qed

lemma findall_isdigit:
  "(e0, e1, e2, e3) \<in> set (findall s) \<Longrightarrow> isdigit e0 \<and> isdigit e1 \<and> isdigit e2 \<and> isdigit e3"
proof (induction s rule: findall.induct)
  case 1
  then show ?case by simp
next
  case (2 c r)
  show ?case
  proof (cases "match_entry (c # r)")
    case None
    with 2 show ?thesis by simp
  next
    case (Some a)
    obtain g rest where a: "a = (g, rest)" by (cases a)
    from 2(3) Some a have "(e0, e1, e2, e3) = g \<or> (e0, e1, e2, e3) \<in> set (findall rest)"
      by auto
    then show ?thesis
    proof
      assume "(e0, e1, e2, e3) = g"
      with Some a show ?thesis using match_entry_isdigit [of "c # r" e0 e1 e2 e3 rest] by simp
    next
      assume "(e0, e1, e2, e3) \<in> set (findall rest)"
      with 2(2) [OF Some a [symmetric]] show ?thesis by simp
    qed
  qed
qed

lemma tuple_entry_simp:
  "tuple_entry (e0, e1, e2, e3)
     = (int (digits_value e0),
        \<lparr>name = catalog_name (int (digits_value e0)),
         crc = int (digits_value e1), len = int (digits_value e3)\<rparr>)"
  by (simp add: tuple_entry_def)

lemma parse_entries_fold:
  assumes "\<forall>(e0, e1, e2, e3) \<in> set es. isdigit e0 \<and> isdigit e1 \<and> isdigit e2 \<and> isdigit e3"
      and "list_all fields_fit es"
  shows "parse_entries es crcs
     = Inr (fold (\<lambda>(i, d). AList.update i d)
              (filter (\<lambda>(i, d). i \<in> set (map snd NAVLINK_MESSAGES)) (map tuple_entry es)) crcs)"
  using assms
proof (induction es arbitrary: crcs)
  case Nil
  then show ?case by simp
next
  case (Cons e es)
  obtain e0 e1 e2 e3 where e: "e = (e0, e1, e2, e3)" by (cases e) auto
  from Cons.prems e have d: "isdigit e0" "isdigit e1" "isdigit e2" "isdigit e3"
    and l: "length e0 \<le> int_max_str_digits" "length e1 \<le> int_max_str_digits"
           "length e2 \<le> int_max_str_digits" "length e3 \<le> int_max_str_digits"
    by (auto simp: fields_fit_def)
  have i: "py_int e0 = Inr (int (digits_value e0))" "py_int e1 = Inr (int (digits_value e1))"
          "py_int e2 = Inr (int (digits_value e2))" "py_int e3 = Inr (int (digits_value e3))"
    using d l by (simp_all add: py_int_digits)
  have IH: "parse_entries es t
     = Inr (fold (\<lambda>(i, d). AList.update i d)
              (filter (\<lambda>(i, d). i \<in> set (map snd NAVLINK_MESSAGES)) (map tuple_entry es)) t)" for t
    using Cons.IH Cons.prems by simp
  show ?case
  proof (cases "int (digits_value e0) \<in> set (map snd NAVLINK_MESSAGES)")
    case True
    then obtain nm ns where
      f: "map fst (filter (\<lambda>(k, v). v = int (digits_value e0)) NAVLINK_MESSAGES) = nm # ns"
      using catalog_filter_nonempty [of "int (digits_value e0)" NAVLINK_MESSAGES]
      by (cases "map fst (filter (\<lambda>(k, v). v = int (digits_value e0)) NAVLINK_MESSAGES)") auto
    then have n: "catalog_name (int (digits_value e0)) = nm" by (simp add: catalog_name_def)
    show ?thesis
      using True f n by (simp add: e i IH tuple_entry_simp del: set_map)
  next
    case False
    then show ?thesis by (simp add: e i IH tuple_entry_simp del: set_map)
  qed
qed

lemma map_of_fold_update:
  "map_of (fold (\<lambda>(i, d). AList.update i d) xs t) k
     = (case map_of (rev xs) k of Some v \<Rightarrow> Some v | None \<Rightarrow> map_of t k)"
proof (induction xs arbitrary: t)
  case Nil
  then show ?case by simp
next
  case (Cons x xs)
  obtain i d where x: "x = (i, d)" by (cases x)
  show ?case
    by (simp add: x Cons.IH update_conv' map_add_def map_of_append split: option.splits)
qed

lemma distinct_fold_update:
  "distinct (map fst t) \<Longrightarrow> distinct (map fst (fold (\<lambda>(i, d). AList.update i d) xs t))"
  by (induction xs arbitrary: t) (auto simp: distinct_update)

lemma parse_c_header_crcs_table:
  assumes "search_define content" and "list_all fields_fit (findall content)"
  shows "parse_c_header_crcs (Some content)
           = Inr (Some (fold (\<lambda>(i, d). AList.update i d) (catalog_entries content) []))"
proof -
  have "\<forall>(e0, e1, e2, e3) \<in> set (findall content). isdigit e0 \<and> isdigit e1 \<and> isdigit e2 \<and> isdigit e3"
    using findall_isdigit by blast
  from parse_entries_fold [OF this assms(2)] assms(1)
  show ?thesis by (simp add: parse_c_header_crcs_def catalog_entries_def)
qed

text \<open>The scan on a block: a 7-tuple is matched whole, and a text free of tuple starts is passed over.\<close>

lemma is_digit_not_space: "is_digit c \<Longrightarrow> \<not> is_space c"
  by (auto simp: is_digit_def is_space_def)

lemma isdigit_hd: "isdigit g \<Longrightarrow> g \<noteq> [] \<and> is_digit (hd g)"
  by (cases g) (auto simp: isdigit_def)

lemma match_digits_text:
  assumes "isdigit g" and "r = [] \<or> \<not> is_digit (hd r)"
  shows "match_digits (g @ r) = Some (g, r)"
proof -
  have g: "\<And>x. x \<in> set g \<Longrightarrow> is_digit x" using assms(1) by (simp add: isdigit_def list_all_iff)
  have r: "takeWhile is_digit r = []" using assms(2) by (cases r) auto
  have r': "dropWhile is_digit r = r" using assms(2) by (cases r) auto
  have "g \<noteq> []" using assms(1) by (simp add: isdigit_def)
  then show ?thesis
    by (simp add: match_digits_def takeWhile_append2 [OF g] dropWhile_append2 [OF g] r r')
qed

lemma match_field_text:
  assumes "isdigit g" and "list_all is_space w" and "r \<noteq> []" and "is_digit (hd r)"
  shows "match_field (g @ CHR '','' # w @ r) = Some (g, r)"
proof -
  have d: "match_digits (g @ CHR '','' # w @ r) = Some (g, CHR '','' # w @ r)"
    by (rule match_digits_text [OF assms(1)]) (simp add: is_digit_def)
  have w: "\<And>x. x \<in> set w \<Longrightarrow> is_space x" using assms(2) by (simp add: list_all_iff)
  have "\<not> is_space (hd r)" using assms(4) by (rule is_digit_not_space)
  then have r: "dropWhile is_space r = r" using assms(3) by (cases r) auto
  show ?thesis
    by (simp add: match_field_def d match_lit_def dropWhile_append2 [OF w] r)
qed

lemma match_entry_text:
  assumes "seven_tuple gs ws"
  shows "match_entry (tuple_text gs ws @ rest) = Some (first_four gs, rest)"
proof -
  obtain g1 g2 g3 g4 g5 g6 g7 where gs: "gs = (g1, g2, g3, g4, g5, g6, g7)" by (cases gs)
  obtain w1 w2 w3 w4 w5 w6 where ws: "ws = (w1, w2, w3, w4, w5, w6)" by (cases ws)
  from assms have d: "isdigit g1" "isdigit g2" "isdigit g3" "isdigit g4" "isdigit g5" "isdigit g6" "isdigit g7"
    and w: "list_all is_space w1" "list_all is_space w2" "list_all is_space w3"
           "list_all is_space w4" "list_all is_space w5" "list_all is_space w6"
    by (simp_all add: gs ws)
  let ?t7 = "g7 @ CHR ''}'' # rest"
  let ?t6 = "g6 @ CHR '','' # w6 @ ?t7"
  let ?t5 = "g5 @ CHR '','' # w5 @ ?t6"
  let ?t4 = "g4 @ CHR '','' # w4 @ ?t5"
  let ?t3 = "g3 @ CHR '','' # w3 @ ?t4"
  let ?t2 = "g2 @ CHR '','' # w2 @ ?t3"
  let ?t1 = "g1 @ CHR '','' # w1 @ ?t2"
  have h: "?t7 \<noteq> [] \<and> is_digit (hd ?t7)" "?t6 \<noteq> [] \<and> is_digit (hd ?t6)"
          "?t5 \<noteq> [] \<and> is_digit (hd ?t5)" "?t4 \<noteq> [] \<and> is_digit (hd ?t4)"
          "?t3 \<noteq> [] \<and> is_digit (hd ?t3)" "?t2 \<noteq> [] \<and> is_digit (hd ?t2)"
    using d by (auto dest!: isdigit_hd)
  have f1: "match_field ?t1 = Some (g1, ?t2)"
    using d(1) w(1) h(6) by (intro match_field_text) simp_all
  have f2: "match_field ?t2 = Some (g2, ?t3)"
    using d(2) w(2) h(5) by (intro match_field_text) simp_all
  have f3: "match_field ?t3 = Some (g3, ?t4)"
    using d(3) w(3) h(4) by (intro match_field_text) simp_all
  have f4: "match_field ?t4 = Some (g4, ?t5)"
    using d(4) w(4) h(3) by (intro match_field_text) simp_all
  have f5: "match_field ?t5 = Some (g5, ?t6)"
    using d(5) w(5) h(2) by (intro match_field_text) simp_all
  have f6: "match_field ?t6 = Some (g6, ?t7)"
    using d(6) w(6) h(1) by (intro match_field_text) simp_all
  have f7: "match_digits ?t7 = Some (g7, CHR ''}'' # rest)"
    by (rule match_digits_text [OF d(7)]) (simp add: is_digit_def)
  have t: "tuple_text gs ws @ rest = CHR ''{'' # ?t1"
    by (simp add: gs ws)
  show ?thesis
    unfolding t by (simp add: match_entry_def match_lit_def f1 f2 f3 f4 f5 f6 f7 gs)
qed

lemma match_entry_no_start:
  assumes "c \<noteq> CHR ''{'' \<or> r = [] \<or> \<not> is_digit (hd r)"
  shows "match_entry (c # r) = None"
proof (cases "c = CHR ''{''")
  case False
  then show ?thesis by (simp add: match_entry_def match_lit_def)
next
  case True
  with assms have "takeWhile is_digit r = []" by (cases r) auto
  then have "match_field r = None" by (simp add: match_field_def match_digits_def)
  with True show ?thesis by (simp add: match_entry_def match_lit_def)
qed

lemma findall_skip:
  "no_tuple_start pre \<Longrightarrow> x = [] \<or> \<not> is_digit (hd x) \<Longrightarrow> findall (pre @ x) = findall x"
proof (induction pre rule: no_tuple_start.induct)
  case 1
  then show ?case by simp
next
  case (2 c)
  then have "match_entry (c # x) = None"
    by (intro match_entry_no_start) auto
  then show ?case by simp
next
  case (3 c d r)
  then have "match_entry (c # d # r @ x) = None"
    by (intro match_entry_no_start) auto
  with 3 show ?case by simp
qed

lemma findall_match:
  assumes "match_entry s = Some (g, rest)"
  shows "findall s = g # findall rest"
proof (cases s)
  case Nil
  with assms show ?thesis by (simp add: match_entry_def match_lit_def)
next
  case (Cons c r)
  with assms show ?thesis by simp
qed

lemma tuple_text_hd: "\<exists>r. tuple_text gs ws @ rest = CHR ''{'' # r"
  by (cases gs, cases ws) simp

lemma findall_block:
  assumes "block_ok items tail"
  shows "findall (block_text items tail) = map (\<lambda>(sep, gs, ws). first_four gs) items"
  using assms
proof (induction items)
  case Nil
  then have "findall (tail @ []) = findall []"
    by (intro findall_skip) (simp_all add: block_ok_def)
  then show ?case by simp
next
  case (Cons item items)
  obtain sep gs ws where item: "item = (sep, gs, ws)" by (cases item)
  from Cons.prems have sep: "no_tuple_start sep" and t: "seven_tuple gs ws"
    and rest: "block_ok items tail"
    by (simp_all add: block_ok_def item)
  let ?rest = "block_text items tail"
  obtain r where r: "tuple_text gs ws @ ?rest = CHR ''{'' # r"
    using tuple_text_hd by blast
  have "findall (sep @ tuple_text gs ws @ ?rest) = findall (tuple_text gs ws @ ?rest)"
    by (rule findall_skip [OF sep]) (simp add: r is_digit_def)
  also have "\<dots> = first_four gs # findall ?rest"
    by (rule findall_match [OF match_entry_text [OF t]])
  finally show ?case
    using Cons.IH [OF rest] by (simp add: item)
qed


text \<open>The example of the specification, a one-line block, and the header with a stray tuple.\<close>

lemma example_header_block:
  "example_header
     = block_text
         [(''#define MAVLINK_MESSAGE_CRCS {'',
           (''25002'', ''100'', ''20'', ''20'', ''0'', ''0'', ''0''),
           ('' '', '' '', '' '', '' '', '' '', '' '')),
          ('', '',
           (''1'', ''50'', ''9'', ''9'', ''0'', ''0'', ''0''),
           ('' '', '' '', '' '', '' '', [], []))]
         ''}''"
  by (simp add: example_header_def)

lemma example_block_ok:
  "block_ok
     [(''#define MAVLINK_MESSAGE_CRCS {'',
       (''25002'', ''100'', ''20'', ''20'', ''0'', ''0'', ''0''),
       ('' '', '' '', '' '', '' '', '' '', '' '')),
      ('', '',
       (''1'', ''50'', ''9'', ''9'', ''0'', ''0'', ''0''),
       ('' '', '' '', '' '', '' '', [], []))]
     ''}''"
  by (simp add: block_ok_def isdigit_def is_digit_def is_space_def)

lemma example_search: "search_define example_header"
  by (simp add: example_header_def match_define_def is_space_def)

lemmas digits_eval = digits_value_def digit_value_def

lemma stray_findall:
  "findall stray_header = [(''25002'', ''100'', ''20'', ''20''), (''25003'', ''7'', ''1'', ''1'')]"
  by (simp add: stray_header_def match_entry_def match_field_def match_lit_def match_digits_def
        is_digit_def is_space_def)

lemma stray_search: "search_define stray_header"
  by (simp add: stray_header_def match_define_def is_space_def)

lemma stray_entries:
  "catalog_entries stray_header
     = [(25002, \<lparr>name = ''CHECK_IN'', crc = 100, len = 20\<rparr>),
        (25003, \<lparr>name = ''CHECK_OUT'', crc = 7, len = 1\<rparr>)]"
  by (simp add: catalog_entries_def stray_findall tuple_entry_simp digits_eval catalog_name_def
        NAVLINK_MESSAGES_def)

lemma stray_fit: "list_all fields_fit (findall stray_header)"
  by (simp add: stray_findall fields_fit_def int_max_str_digits_def)

lemma no_define_example: "\<not> search_define ''{25002, 100, 20, 20, 0, 0, 0}''"
  by (simp add: match_define_def)

text \<open>
  C6, as the code has it: the extractor returns the absence marker when the file does not
  exist, and also when its text has no table definition. On a text with the definition in
  which each of the first four numbers of every 7-tuple is within the digit limit of int,
  it returns a table with one entry for each catalog id among the 7-tuples of the text,
  holding the id, the integrity code and max_length of the tuple (the later tuple when an
  id repeats), and nothing for ids outside the catalog. The 7-tuples of a block, whether
  it is on one line or on many, are its tuples in their order, with their first four
  numbers. On the one-line block with the tuples of 25002 and 1 the result is exactly
  the descriptor of 25002 with code 100 and length 20.
\<close>

theorem parse_c_header_crcs_entries:
  "parse_c_header_crcs None = Inr None
   \<and> (\<not> search_define content \<longrightarrow> parse_c_header_crcs (Some content) = Inr None)
   \<and> (search_define content \<and> list_all fields_fit (findall content) \<longrightarrow>
        (\<exists>crcs. parse_c_header_crcs (Some content) = Inr (Some crcs)
            \<and> distinct (map fst crcs)
            \<and> (\<forall>i. map_of crcs i = map_of (rev (catalog_entries content)) i)))
   \<and> (block_ok items tail \<longrightarrow>
        findall (block_text items tail) = map (\<lambda>(sep, gs, ws). first_four gs) items)
   \<and> (search_define example_header \<and> list_all fields_fit (findall example_header)
        \<and> catalog_entries example_header
             = [(25002, \<lparr>name = ''CHECK_IN'', crc = 100, len = 20\<rparr>)]
        \<and> parse_c_header_crcs (Some example_header)
             = Inr (Some [(25002, \<lparr>name = ''CHECK_IN'', crc = 100, len = 20\<rparr>)]))"
proof -
  let ?t = "fold (\<lambda>(i, d). AList.update i d) (catalog_entries content) []"
  have "distinct (map fst ?t)"
    by (rule distinct_fold_update) simp
  moreover have "map_of ?t i = map_of (rev (catalog_entries content)) i" for i
    by (simp add: map_of_fold_update split: option.splits)
  ultimately have c: "search_define content \<and> list_all fields_fit (findall content) \<longrightarrow>
        (\<exists>crcs. parse_c_header_crcs (Some content) = Inr (Some crcs)
            \<and> distinct (map fst crcs)
            \<and> (\<forall>i. map_of crcs i = map_of (rev (catalog_entries content)) i))"
    by (auto simp: parse_c_header_crcs_table)
  have a: "parse_c_header_crcs None = Inr None"
    by (simp add: parse_c_header_crcs_def)
  have b: "\<not> search_define content \<longrightarrow> parse_c_header_crcs (Some content) = Inr None"
    by (simp add: parse_c_header_crcs_def)
  have d: "block_ok items tail \<longrightarrow>
        findall (block_text items tail) = map (\<lambda>(sep, gs, ws). first_four gs) items"
    by (simp add: findall_block)
  have f: "findall example_header
             = [(''25002'', ''100'', ''20'', ''20''), (''1'', ''50'', ''9'', ''9'')]"
    unfolding example_header_block findall_block [OF example_block_ok] by simp
  have fit: "list_all fields_fit (findall example_header)"
    by (simp add: f fields_fit_def int_max_str_digits_def)
  have ent: "catalog_entries example_header
             = [(25002, \<lparr>name = ''CHECK_IN'', crc = 100, len = 20\<rparr>)]"
    by (simp add: catalog_entries_def f tuple_entry_simp digits_eval catalog_name_def
          NAVLINK_MESSAGES_def)
  have p: "parse_c_header_crcs (Some example_header)
             = Inr (Some [(25002, \<lparr>name = ''CHECK_IN'', crc = 100, len = 20\<rparr>)])"
    unfolding parse_c_header_crcs_table [OF example_search fit] ent by simp
  from a b c d example_search fit ent p show ?thesis by blast
qed

theorem parse_c_header_crcs_entries_witness:
  "findall example_header = [(''25002'', ''100'', ''20'', ''20''), (''1'', ''50'', ''9'', ''9'')]
   \<and> (\<exists>crcs. parse_c_header_crcs (Some example_header) = Inr (Some crcs)
        \<and> map_of crcs 25002 = Some \<lparr>name = ''CHECK_IN'', crc = 100, len = 20\<rparr>
        \<and> map_of crcs 1 = None)"
proof -
  note t = parse_c_header_crcs_entries
    [of example_header
        "[(''#define MAVLINK_MESSAGE_CRCS {'',
           (''25002'', ''100'', ''20'', ''20'', ''0'', ''0'', ''0''),
           ('' '', '' '', '' '', '' '', '' '', '' '')),
          ('', '',
           (''1'', ''50'', ''9'', ''9'', ''0'', ''0'', ''0''),
           ('' '', '' '', '' '', '' '', [], []))]"
        "''}''"]
  from t example_block_ok
  have "findall (block_text
         [(''#define MAVLINK_MESSAGE_CRCS {'',
           (''25002'', ''100'', ''20'', ''20'', ''0'', ''0'', ''0''),
           ('' '', '' '', '' '', '' '', '' '', '' '')),
          ('', '',
           (''1'', ''50'', ''9'', ''9'', ''0'', ''0'', ''0''),
           ('' '', '' '', '' '', '' '', [], []))]
         ''}'')
        = [(''25002'', ''100'', ''20'', ''20''), (''1'', ''50'', ''9'', ''9'')]"
    by simp
  then have f: "findall example_header
        = [(''25002'', ''100'', ''20'', ''20''), (''1'', ''50'', ''9'', ''9'')]"
    by (simp only: example_header_block)
  from t obtain crcs where c: "parse_c_header_crcs (Some example_header) = Inr (Some crcs)"
    and m: "\<forall>i. map_of crcs i = map_of (rev (catalog_entries example_header)) i"
    and e: "catalog_entries example_header
             = [(25002, \<lparr>name = ''CHECK_IN'', crc = 100, len = 20\<rparr>)]"
    by blast
  from m e have "map_of crcs 25002 = Some \<lparr>name = ''CHECK_IN'', crc = 100, len = 20\<rparr>"
    and "map_of crcs 1 = None"
    by simp_all
  with f c show ?thesis by blast
qed

text \<open>
  The claim as stated, that on every file that exists the result is the table of the
  catalog entries of the table block, fails: a file that exists and has no table definition
  gives the absence marker, although a catalog tuple stands in it; and a catalog tuple
  after the end of the block is returned with those of the block.
\<close>

theorem header_without_definition_is_absent:
  "parse_c_header_crcs (Some ''{25002, 100, 20, 20, 0, 0, 0}'') = Inr None
   \<and> parse_c_header_crcs (Some stray_header)
       = Inr (Some [(25002, \<lparr>name = ''CHECK_IN'', crc = 100, len = 20\<rparr>),
                    (25003, \<lparr>name = ''CHECK_OUT'', crc = 7, len = 1\<rparr>)])"
proof -
  have "\<not> search_define c \<Longrightarrow> parse_c_header_crcs (Some c) = Inr None" for c
    by (simp add: parse_c_header_crcs_def)
  from this [OF no_define_example]
  have 1: "parse_c_header_crcs (Some ''{25002, 100, 20, 20, 0, 0, 0}'') = Inr None" .
  have 2: "parse_c_header_crcs (Some stray_header)
       = Inr (Some [(25002, \<lparr>name = ''CHECK_IN'', crc = 100, len = 20\<rparr>),
                    (25003, \<lparr>name = ''CHECK_OUT'', crc = 7, len = 1\<rparr>)])"
    unfolding parse_c_header_crcs_table [OF stray_search stray_fit] stray_entries by simp
  from 1 2 show ?thesis by (rule conjI)
qed

section \<open>Properties of parse_params\<close>

lemmas float_eval = py_float_def strip_def drop_sign_def floatnumber_def number_def is_e_def
  is_c_space_def is_digit_def lower_def lower_char_def

lemma ex_float: "convert_value ''40.31'' = PyFloat ''40.31''"
  by (simp add: convert_value_def float_eval)

lemma ex_str: "convert_value ''127.0.0.1'' = PyStr ''127.0.0.1''"
  by (simp add: convert_value_def float_eval)

lemma parse_loop_fold:
  "parse_loop params result = fold (\<lambda>(k, v). AList.update k v) (param_pairs params) result"
  by (induction params arbitrary: result) (simp_all add: param_pairs_def split: prod.splits)

lemma is_digit_not_dot: "is_digit c \<Longrightarrow> c \<noteq> CHR ''.''"
  by (auto simp: is_digit_def)

lemma isdigit_no_dot: "isdigit v \<Longrightarrow> CHR ''.'' \<notin> set v"
  by (auto simp: isdigit_def list_all_iff dest: is_digit_not_dot)

lemma lower_char_cases:
  "lower_char c = CHR ''t'' \<Longrightarrow> c = CHR ''t'' \<or> c = CHR ''T''"
  "lower_char c = CHR ''r'' \<Longrightarrow> c = CHR ''r'' \<or> c = CHR ''R''"
  "lower_char c = CHR ''u'' \<Longrightarrow> c = CHR ''u'' \<or> c = CHR ''U''"
  "lower_char c = CHR ''e'' \<Longrightarrow> c = CHR ''e'' \<or> c = CHR ''E''"
  "lower_char c = CHR ''f'' \<Longrightarrow> c = CHR ''f'' \<or> c = CHR ''F''"
  "lower_char c = CHR ''a'' \<Longrightarrow> c = CHR ''a'' \<or> c = CHR ''A''"
  "lower_char c = CHR ''l'' \<Longrightarrow> c = CHR ''l'' \<or> c = CHR ''L''"
  "lower_char c = CHR ''s'' \<Longrightarrow> c = CHR ''s'' \<or> c = CHR ''S''"
  by (simp_all add: lower_char_def split: if_splits)

lemma lower_true_no_dot: "lower v = ''true'' \<Longrightarrow> CHR ''.'' \<notin> set v \<and> \<not> isdigit v \<and> take 1 v \<noteq> ''-''"
  by (auto simp: lower_def isdigit_def is_digit_def map_eq_Cons_conv dest!: lower_char_cases)

lemma lower_false_no_dot: "lower v = ''false'' \<Longrightarrow> CHR ''.'' \<notin> set v \<and> \<not> isdigit v \<and> take 1 v \<noteq> ''-''"
  by (auto simp: lower_def isdigit_def is_digit_def map_eq_Cons_conv dest!: lower_char_cases)

lemma py_float_text: "py_float v = Some f \<Longrightarrow> f = v"
  by (auto simp: py_float_def Let_def split: if_splits)

lemma split_param_key_value:
  assumes "CHR ''='' \<notin> set key"
  shows "split_param (key @ ''='' @ v) = (key, v)"
proof -
  have k: "\<And>x. x \<in> set key \<Longrightarrow> x \<noteq> CHR ''=''" using assms by auto
  show ?thesis
    by (simp add: split_param_def takeWhile_append2 [OF k] dropWhile_append2 [OF k])
qed

lemma convert_float: "CHR ''.'' \<in> set v \<Longrightarrow> py_float v \<noteq> None \<Longrightarrow> convert_value v = PyFloat v"
  by (auto simp: convert_value_def dest: py_float_text split: option.splits)

lemma convert_not_float: "CHR ''.'' \<in> set v \<Longrightarrow> py_float v = None \<Longrightarrow> convert_value v = PyStr v"
  by (simp add: convert_value_def)

lemma convert_digits:
  "isdigit v \<Longrightarrow> length v \<le> int_max_str_digits \<Longrightarrow> convert_value v = PyInt (int (digits_value v))"
  by (simp add: convert_value_def isdigit_no_dot py_int_digits)

lemma convert_digits_long:
  "isdigit v \<Longrightarrow> length v > int_max_str_digits \<Longrightarrow> convert_value v = PyStr v"
  by (simp add: convert_value_def isdigit_no_dot py_int_too_long)

lemma convert_minus_digits:
  "isdigit d \<Longrightarrow> length d \<le> int_max_str_digits
     \<Longrightarrow> convert_value (CHR ''-'' # d) = PyInt (- int (digits_value d))"
  by (simp add: convert_value_def py_int_minus isdigit_no_dot)

lemma convert_minus_digits_long:
  "isdigit d \<Longrightarrow> length d > int_max_str_digits
     \<Longrightarrow> convert_value (CHR ''-'' # d) = PyStr (CHR ''-'' # d)"
  by (simp add: convert_value_def py_int_minus isdigit_no_dot)

lemma convert_true: "lower v = ''true'' \<Longrightarrow> convert_value v = PyBool True"
  by (frule lower_true_no_dot) (simp add: convert_value_def)

lemma convert_false: "lower v = ''false'' \<Longrightarrow> convert_value v = PyBool False"
  by (frule lower_false_no_dot) (simp add: convert_value_def)

lemma convert_other:
  "CHR ''.'' \<notin> set v \<Longrightarrow> \<not> isdigit v \<Longrightarrow> \<not> (take 1 v = ''-'' \<and> isdigit (drop 1 v))
     \<Longrightarrow> lower v \<noteq> ''true'' \<Longrightarrow> lower v \<noteq> ''false'' \<Longrightarrow> convert_value v = PyStr v"
  by (auto simp: convert_value_def)

lemma parse_params_last:
  "map_of (parse_params params) k = map_of (rev (param_pairs params)) k"
  by (simp add: parse_params_def parse_loop_fold map_of_fold_update split: option.splits)

lemma parse_params_single:
  "CHR ''='' \<notin> set key \<Longrightarrow> parse_params [key @ ''='' @ v] = [(key, convert_value v)]"
  using split_param_key_value [of key v] by (simp add: parse_params_def)

text \<open>
  C9, as the code has it: a parameter \<open>key=value\<close> is stored under its key with its value
  converted, a later parameter replacing an earlier one with the same key; a value that
  contains a dot becomes a float when float() accepts it and stays a string when it does
  not; a value of digits, or of a minus sign and digits, becomes an int when int() accepts
  it, that is with no more digits than the limit of 4300, and stays a string beyond; true
  and false in any case become the bool; every other value stays a string.
\<close>

theorem parse_params_conversion:
  "(CHR ''='' \<notin> set key \<longrightarrow> parse_params [key @ ''='' @ v] = [(key, convert_value v)])
   \<and> (\<forall>k. map_of (parse_params params) k = map_of (rev (param_pairs params)) k)
   \<and> (CHR ''.'' \<in> set v \<and> py_float v \<noteq> None \<longrightarrow> convert_value v = PyFloat v)
   \<and> (CHR ''.'' \<in> set v \<and> py_float v = None \<longrightarrow> convert_value v = PyStr v)
   \<and> (isdigit v \<and> length v \<le> int_max_str_digits
        \<longrightarrow> convert_value v = PyInt (int (digits_value v)))
   \<and> (isdigit v \<and> length v > int_max_str_digits \<longrightarrow> convert_value v = PyStr v)
   \<and> (isdigit d \<and> length d \<le> int_max_str_digits
        \<longrightarrow> convert_value (CHR ''-'' # d) = PyInt (- int (digits_value d)))
   \<and> (isdigit d \<and> length d > int_max_str_digits
        \<longrightarrow> convert_value (CHR ''-'' # d) = PyStr (CHR ''-'' # d))
   \<and> (lower v = ''true'' \<longrightarrow> convert_value v = PyBool True)
   \<and> (lower v = ''false'' \<longrightarrow> convert_value v = PyBool False)
   \<and> (CHR ''.'' \<notin> set v \<and> \<not> isdigit v \<and> \<not> (take 1 v = ''-'' \<and> isdigit (drop 1 v))
        \<and> lower v \<noteq> ''true'' \<and> lower v \<noteq> ''false'' \<longrightarrow> convert_value v = PyStr v)"
  using parse_params_single [of key v] parse_params_last [of params]
    convert_float [of v] convert_not_float [of v] convert_digits [of v] convert_digits_long [of v]
    convert_minus_digits [of d] convert_minus_digits_long [of d]
    convert_true [of v] convert_false [of v] convert_other [of v]
  by blast

lemma float_examples:
  "py_float ''40.31'' \<noteq> None" "py_float ''127.0.0.1'' = None"
  "py_float (''1.5'' @ [CHR 0x1C]) = None" "py_float '' 1.5 '' \<noteq> None"
  by (simp_all add: float_eval)

lemma long_digits: "isdigit (replicate 4301 CHR ''7'') \<and> length (replicate 4301 CHR ''7'') > int_max_str_digits"
  by (simp add: isdigit_def is_digit_def list_all_iff int_max_str_digits_def)

theorem parse_params_conversion_witness:
  "parse_params [''lat=40.31''] = [(''lat'', PyFloat ''40.31'')]
   \<and> parse_params [''addr=127.0.0.1''] = [(''addr'', PyStr ''127.0.0.1'')]
   \<and> convert_value (''1.5'' @ [CHR 0x1C]) = PyStr (''1.5'' @ [CHR 0x1C])
   \<and> convert_value ''123'' = PyInt 123
   \<and> convert_value (replicate 4301 CHR ''7'') = PyStr (replicate 4301 CHR ''7'')
   \<and> convert_value ''-5'' = PyInt (- 5)
   \<and> convert_value ''True'' = PyBool True
   \<and> convert_value ''FALSE'' = PyBool False
   \<and> convert_value ''CHECK_IN'' = PyStr ''CHECK_IN''"
proof -
  have 1: "parse_params [''lat=40.31''] = [(''lat'', PyFloat ''40.31'')]"
    using parse_params_conversion [of "''lat''" "''40.31''" "[]" "[]"] float_examples(1) by simp
  have 2: "parse_params [''addr=127.0.0.1''] = [(''addr'', PyStr ''127.0.0.1'')]"
    using parse_params_conversion [of "''addr''" "''127.0.0.1''" "[]" "[]"] float_examples(2) by simp
  have 3: "convert_value (''1.5'' @ [CHR 0x1C]) = PyStr (''1.5'' @ [CHR 0x1C])"
    using parse_params_conversion [of "[]" "''1.5'' @ [CHR 0x1C]" "[]" "[]"] float_examples(3) by simp
  have 4: "convert_value ''123'' = PyInt 123"
    using parse_params_conversion [of "[]" "''123''" "[]" "[]"]
    by (simp add: isdigit_def is_digit_def digits_value_def digit_value_def int_max_str_digits_def)
  have 5: "convert_value (replicate 4301 CHR ''7'') = PyStr (replicate 4301 CHR ''7'')"
    using parse_params_conversion [of "[]" "replicate 4301 CHR ''7''" "[]" "[]"] long_digits by blast
  have 6: "convert_value ''-5'' = PyInt (- 5)"
    using parse_params_conversion [of "[]" "[]" "[]" "''5''"]
    by (simp add: isdigit_def is_digit_def digits_value_def digit_value_def int_max_str_digits_def)
  have 7: "convert_value ''True'' = PyBool True"
    using parse_params_conversion [of "[]" "''True''" "[]" "[]"]
    by (simp add: lower_def lower_char_def)
  have 8: "convert_value ''FALSE'' = PyBool False"
    using parse_params_conversion [of "[]" "''FALSE''" "[]" "[]"]
    by (simp add: lower_def lower_char_def)
  have 9: "convert_value ''CHECK_IN'' = PyStr ''CHECK_IN''"
    using parse_params_conversion [of "[]" "''CHECK_IN''" "[]" "[]"]
    by (simp add: isdigit_def is_digit_def lower_def lower_char_def)
  from 1 2 3 4 5 6 7 8 9 show ?thesis by simp
qed

text \<open>
  The claim as stated, that a value containing a dot becomes a float, fails on a dotted
  value that is no number: it stays a string.
\<close>

theorem dotted_value_stays_string:
  "CHR ''.'' \<in> set ''127.0.0.1''
   \<and> parse_params [''addr=127.0.0.1''] = [(''addr'', PyStr ''127.0.0.1'')]"
  by (simp add: parse_params_def split_param_def convert_value_def float_eval)


section \<open>Properties of the reader loop\<close>

lemma run_callbacks_world:
  "fst (run_callbacks cbs msg (w, out)) = fold (\<lambda>cb w. snd (cb msg w)) cbs w"
proof (induction cbs arbitrary: w out)
  case Nil
  then show ?case by simp
next
  case (Cons cb cbs)
  then show ?case
    by (cases "cb msg w") (auto split: cb_result.splits)
qed

lemma run_callbacks_out:
  "snd (run_callbacks cbs msg (w, out)) = out @ error_lines (callback_results cbs msg w)"
proof (induction cbs arbitrary: w out)
  case Nil
  then show ?case by simp
next
  case (Cons cb cbs)
  then show ?case
    by (cases "cb msg w") (auto split: cb_result.splits)
qed

lemma length_callback_results: "length (callback_results cbs msg w) = length cbs"
  by (induction cbs arbitrary: w) simp_all

lemma reader_loop_fold: "reader_loop cbs rs st = fold (reader_step cbs) rs st"
  by (induction rs arbitrary: st) simp_all

lemma reader_loop_append:
  "reader_loop cbs (rs @ rs') st = reader_loop cbs rs' (reader_loop cbs rs st)"
  by (simp add: reader_loop_fold)

lemma callbacks_get_on_message:
  "callbacks_get (on_message cbs t cb) t'
     = (if t' = t then callbacks_get cbs t @ [cb] else callbacks_get cbs t')"
  by (auto simp: on_message_def callbacks_get_def update_conv' Let_def split: option.splits)

text \<open>
  C7: on a received message the reader loop runs the callbacks registered for the message's
  type and then those registered for the wildcard, each group in registration order, every
  one of them whether or not an earlier one raised: the world afterwards is the one all of
  them produce in that order, a line is printed for each that raised, and the loop goes on
  with the next receive.
\<close>

theorem reader_dispatch:
  "fst (reader_step cbs (RecvMsg msg) (w, out))
     = fold (\<lambda>cb w. snd (cb msg w)) (callbacks_get cbs (get_type msg) @ callbacks_get cbs ''*'') w
   \<and> snd (reader_step cbs (RecvMsg msg) (w, out))
     = out @ error_lines (callback_results (callbacks_get cbs (get_type msg) @ callbacks_get cbs ''*'') msg w)
   \<and> length (callback_results (callbacks_get cbs (get_type msg) @ callbacks_get cbs ''*'') msg w)
     = length (callbacks_get cbs (get_type msg)) + length (callbacks_get cbs ''*'')
   \<and> reader_loop cbs (rs @ RecvMsg msg # rs') st
     = reader_loop cbs rs' (reader_step cbs (RecvMsg msg) (reader_loop cbs rs st))
   \<and> callbacks_get (on_message cbs t cb) t'
     = (if t' = t then callbacks_get cbs t @ [cb] else callbacks_get cbs t')"
  by (simp add: reader_step_def run_callbacks_world run_callbacks_out length_callback_results
        reader_loop_append callbacks_get_on_message)

lemma example_callbacks_get:
  "callbacks_get example_callbacks ''CHECK_IN'' = [cb_failing, cb_second]"
  "callbacks_get example_callbacks ''*'' = [cb_wild]"
  by (simp_all add: example_callbacks_def callbacks_get_on_message) (simp_all add: callbacks_get_def)

theorem reader_dispatch_witness:
  "reader_step example_callbacks (RecvMsg check_in_msg) ([], [])
     = ([''failing'', ''second'', ''wild''], [''Callback error: boom''])
   \<and> reader_loop example_callbacks [RecvMsg check_in_msg, RecvMsg check_in_msg] ([], [])
     = ([''failing'', ''second'', ''wild'', ''failing'', ''second'', ''wild''],
        [''Callback error: boom'', ''Callback error: boom''])"
proof -
  have s: "reader_step example_callbacks (RecvMsg check_in_msg) (w, out)
          = (w @ [''failing'', ''second'', ''wild''], out @ [''Callback error: boom''])" for w out
    using reader_dispatch [of example_callbacks check_in_msg w out "[]" "[]" "([], [])" "[]" cb_wild "[]"]
    by (simp add: prod_eq_iff check_in_msg_def example_callbacks_get cb_failing_def cb_second_def cb_wild_def)
  have "reader_loop example_callbacks ([RecvMsg check_in_msg] @ RecvMsg check_in_msg # []) ([], [])
          = reader_loop example_callbacks [] (reader_step example_callbacks (RecvMsg check_in_msg)
              (reader_loop example_callbacks [RecvMsg check_in_msg] ([], [])))"
    using reader_dispatch [of example_callbacks check_in_msg "[]" "[]" "[RecvMsg check_in_msg]" "[]" "([], [])" "[]" cb_wild "[]"]
    by blast
  then show ?thesis by (simp add: s)
qed

section \<open>Properties of the harness\<close>

lemma wait_loop_result:
  "wait_loop src target deadline polls
     = (if heartbeat_seen target (polls_before deadline polls)
        then Some (True, [heartbeat_line src target])
        else if deadline_reached deadline polls then Some (False, [])
        else None)"
proof (induction polls)
  case Nil
  then show ?case by (simp add: heartbeat_seen_def polls_before_def deadline_reached_def)
next
  case (Cons p polls)
  obtain now m where p: "p = (now, m)" by (cases p)
  show ?case
    using Cons.IH
    by (cases m) (auto simp: p heartbeat_seen_def polls_before_def deadline_reached_def)
qed

lemma wait_heartbeat_from_returns:
  assumes "deadline_reached (start + timeout) polls"
  shows "wait_heartbeat_from src target timeout start polls
           = Some (if heartbeat_seen target (polls_before (start + timeout) polls)
                   then (True, [heartbeat_line src target]) else (False, []))"
  using assms by (simp add: wait_heartbeat_from_def wait_loop_result)

text \<open>
  C8, as the code has it: after both sessions connect, session 2 waits for a heartbeat whose
  source system is 1 and then session 1 for one whose source system is 2 (the fixed ids 1
  and 2, not the sessions' own identities 251 and 252), each wait with its own deadline of
  ten seconds after its start; once the clock of a wait reaches its deadline the wait
  returns, true with one printed line exactly when such a heartbeat came in a poll before
  the deadline, false with nothing printed otherwise; whatever the two results are, the
  message is then sent from session 2.
\<close>

theorem cross_heartbeat_then_send:
  assumes "connect1_ok env" and "connect2_ok env"
    and "deadline_reached (start2 env + 10) (polls2 env)"
    and "deadline_reached (start1 env + 10) (polls1 env)"
  shows "\<exists>r2 out2 r1 out1.
      harness_main msg timeout env
        = Some (if received_log env \<noteq> [] then 0 else 1,
                [Connect 251, Connect 252, OnMessage 251 ''*'', OnMessage 252 ''*'',
                 WaitHeartbeatFrom 252 1 10 r2 out2, WaitHeartbeatFrom 251 2 10 r1 out1,
                 SendMessage 252 msg, Sleep timeout, Close 251, Close 252])
    \<and> r2 = heartbeat_seen 1 (polls_before (start2 env + 10) (polls2 env))
    \<and> out2 = (if r2 then [heartbeat_line 252 1] else [])
    \<and> r1 = heartbeat_seen 2 (polls_before (start1 env + 10) (polls1 env))
    \<and> out1 = (if r1 then [heartbeat_line 251 2] else [])"
  using assms
  by (simp add: harness_main_def wait_heartbeat_from_returns
        vehicle1_source_system_def vehicle2_source_system_def)

lemma example_env_fields:
  "connect1_ok example_env" "connect2_ok example_env"
  "deadline_reached (start2 example_env + 10) (polls2 example_env)"
  "deadline_reached (start1 example_env + 10) (polls1 example_env)"
  by (simp_all add: example_env_def deadline_reached_def)

lemma example_env_seen:
  "\<not> heartbeat_seen 1 (polls_before (start2 example_env + 10) (polls2 example_env))"
  "heartbeat_seen 2 (polls_before (start1 example_env + 10) (polls1 example_env))"
  by (simp_all add: example_env_def heartbeat_seen_def polls_before_def heartbeat_from_def)

lemma heartbeat_line_251_2: "heartbeat_line 251 2 = ''[SYS 251] Heartbeat from system 2''"
  by (simp add: heartbeat_line_def str_eval)

theorem cross_heartbeat_then_send_witness:
  "harness_main check_in_msg 5 example_env
     = Some (1, [Connect 251, Connect 252, OnMessage 251 ''*'', OnMessage 252 ''*'',
                 WaitHeartbeatFrom 252 1 10 False [],
                 WaitHeartbeatFrom 251 2 10 True [''[SYS 251] Heartbeat from system 2''],
                 SendMessage 252 check_in_msg, Sleep 5, Close 251, Close 252])"
proof -
  from cross_heartbeat_then_send [OF example_env_fields, of check_in_msg 5]
  obtain r2 out2 r1 out1 where
    h: "harness_main check_in_msg 5 example_env
        = Some (if received_log example_env \<noteq> [] then 0 else 1,
                [Connect 251, Connect 252, OnMessage 251 ''*'', OnMessage 252 ''*'',
                 WaitHeartbeatFrom 252 1 10 r2 out2, WaitHeartbeatFrom 251 2 10 r1 out1,
                 SendMessage 252 check_in_msg, Sleep 5, Close 251, Close 252])"
    and r2: "r2 = heartbeat_seen 1 (polls_before (start2 example_env + 10) (polls2 example_env))"
    and o2: "out2 = (if r2 then [heartbeat_line 252 1] else [])"
    and r1: "r1 = heartbeat_seen 2 (polls_before (start1 example_env + 10) (polls1 example_env))"
    and o1: "out1 = (if r1 then [heartbeat_line 251 2] else [])"
    by blast
  have "received_log example_env = []" by (simp add: example_env_def)
  with h r2 o2 r1 o1 example_env_seen heartbeat_line_251_2 show ?thesis by simp
qed

text \<open>
  The claim as stated, that session 2 waits for a heartbeat whose source identity equals
  session 1's identity and that a wait that times out is reported, fails: a heartbeat from
  251 inside the deadline leaves the wait of session 2 false with nothing printed, and one
  from system 1 makes it true.
\<close>

theorem heartbeat_of_session1_identity_not_awaited:
  "vehicle1_source_system = 251
   \<and> get_srcSystem (heartbeat_from 251) = vehicle1_source_system
   \<and> wait_heartbeat_from 252 1 10 0 [(0, None), (1, Some (heartbeat_from 251)), (11, None)]
       = Some (False, [])
   \<and> wait_heartbeat_from 252 1 10 0 [(0, None), (1, Some (heartbeat_from 1)), (11, None)]
       = Some (True, [''[SYS 252] Heartbeat from system 1''])"
  by (simp add: vehicle1_source_system_def heartbeat_from_def wait_heartbeat_from_def
        heartbeat_line_def str_eval)

end
